theory Spec2Isabelle
  imports Main
begin

section \<open>Python values\<close>

text \<open>
  A Python \<open>str\<close> is modelled as a \<open>string\<close>, one \<open>char\<close> per code point, so the
  model covers the strings whose code points are below 256 (ASCII and Latin-1).
  On these, \<open>str.lower\<close>, \<open>str.isspace\<close> and \<open>str.replace\<close> are the functions below.
\<close>

definition isspace :: "char \<Rightarrow> bool" where
  "isspace c =
     (let n = (of_char c :: nat)
      in (9 \<le> n \<and> n \<le> 13) \<or> (28 \<le> n \<and> n \<le> 32) \<or> n = 133 \<or> n = 160)"

definition strip :: "string \<Rightarrow> string" where
  "strip s = rev (dropWhile isspace (rev (dropWhile isspace s)))"

definition lower_char :: "char \<Rightarrow> char" where
  "lower_char c =
     (let n = (of_char c :: nat)
      in if (65 \<le> n \<and> n \<le> 90) \<or> (192 \<le> n \<and> n \<le> 222 \<and> n \<noteq> 215)
         then char_of (n + 32) else c)"

definition lower :: "string \<Rightarrow> string" where
  "lower s = map lower_char s"

text \<open>\<open>s.replace(' ', '_')\<close>\<close>

definition replace_space :: "string \<Rightarrow> string" where
  "replace_space s = map (\<lambda>c. if c = CHR '' '' then CHR ''_'' else c) s"

text \<open>\<open>sep.join(xs)\<close>\<close>

fun join :: "string \<Rightarrow> string list \<Rightarrow> string" where
  "join sep [] = []"
| "join sep [x] = x"
| "join sep (x # y # ys) = x @ sep @ join sep (y # ys)"

text \<open>\<open>str(n)\<close> for a non-negative integer: its decimal digits.\<close>

definition digit :: "nat \<Rightarrow> char" where
  "digit d = char_of (48 + d)"

fun str_nat :: "nat \<Rightarrow> string" where
  "str_nat n = (if n < 10 then [digit n] else str_nat (n div 10) @ [digit (n mod 10)])"

declare str_nat.simps [simp del]

text \<open>Truthiness of a value that is \<open>None\<close> or a string: \<open>None\<close> and \<open>''\<close> are false.\<close>

fun truthy :: "string option \<Rightarrow> bool" where
  "truthy None = False"
| "truthy (Some s) = (s \<noteq> [])"

section \<open>The remote catalogue\<close>

text \<open>
  The records of the remote API, with the keys the code reads: a playlist has
  \<open>'id'\<close> and \<open>'name'\<close>; an item of a track page has \<open>'track'\<close>, which may be
  \<open>None\<close>; a track has \<open>'name'\<close> and \<open>'artists'\<close>; an artist has \<open>'name'\<close>,
  which may be \<open>None\<close>. A page has \<open>'items'\<close> and \<open>'next'\<close>, the link to the
  next page or \<open>None\<close>.
\<close>

record playlist =
  p_id :: string
  p_name :: string

record artist =
  artist_name :: "string option"

record track =
  track_name :: string
  track_artists :: "artist list"

record item =
  item_track :: "track option"

record 'a page =
  items :: "'a list"
  next_link :: "string option"

text \<open>
  Exceptions: a failure of a remote call, an \<open>OSError\<close> of the file system (of
  any subclass), and the program's own \<open>PlaylistArchiverError\<close>.
\<close>

datatype error =
    SpotifyException
  | OSError
  | PlaylistArchiverError string

text \<open>
  The client \<open>sp\<close>: \<open>current_user_playlists(limit, offset)\<close> and
  \<open>playlist_tracks(playlist_id, offset, limit)\<close>. Each call returns a page or raises.
\<close>

record spotify =
  current_user_playlists :: "nat \<Rightarrow> nat \<Rightarrow> error + playlist page"
  playlist_tracks :: "string \<Rightarrow> nat \<Rightarrow> nat \<Rightarrow> error + item page"

section \<open>Fetching all playlists\<close>

text \<open>
  The \<open>while True\<close> loop of \<open>get_all_playlists\<close>, with its local variables
  \<open>limit\<close>, \<open>offset\<close> and \<open>playlists\<close>. The loop need not end, so the result is an
  option: \<open>None\<close> when it runs forever, \<open>Some (Inl e)\<close> when a call raises \<open>e\<close>,
  \<open>Some (Inr xs)\<close> when it returns \<open>xs\<close>.
\<close>

partial_function (option) get_all_playlists_loop ::
  "spotify \<Rightarrow> nat \<Rightarrow> nat \<Rightarrow> playlist list \<Rightarrow> (error + playlist list) option" where
  "get_all_playlists_loop sp limit offset playlists =
     (case current_user_playlists sp limit offset of
        Inl e \<Rightarrow> Some (Inl e)
      | Inr batch \<Rightarrow>
          if truthy (next_link batch)
          then get_all_playlists_loop sp limit (offset + limit) (playlists @ items batch)
          else Some (Inr (playlists @ items batch)))"

definition get_all_playlists :: "spotify \<Rightarrow> (error + playlist list) option" where
  "get_all_playlists sp = get_all_playlists_loop sp 50 0 []"

text \<open>
  A remote that holds the listing \<open>xs\<close> and serves it in pages: the page asked for with
  \<open>limit\<close> and \<open>offset\<close> holds the next \<open>limit\<close> entries from \<open>offset\<close> on, and
  has a link to a next page exactly when entries remain after it.
\<close>

definition page_of :: "'a list \<Rightarrow> nat \<Rightarrow> nat \<Rightarrow> 'a page" where
  "page_of xs limit offset =
     \<lparr>items = take limit (drop offset xs),
      next_link = (if offset + limit < length xs then Some ''next'' else None)\<rparr>"

section \<open>Fetching and formatting the tracks of a playlist\<close>

text \<open>\<open>artist["name"] or 'Unknown Artist'\<close>\<close>

definition artist_or_unknown :: "artist \<Rightarrow> string" where
  "artist_or_unknown a = (if truthy (artist_name a) then the (artist_name a) else ''Unknown Artist'')"

text \<open>The value of \<open>artist_names\<close> for the list \<open>track['artists']\<close>.\<close>

definition artist_names :: "artist list \<Rightarrow> string" where
  "artist_names artists =
     (if artists \<noteq> [] then join '', '' (map artist_or_unknown artists)
      else ''Unknown Artist'')"

text \<open>The line \<open>f"{idx}. _{track['name']}_ by {artist_names}"\<close>.\<close>

definition track_entry :: "nat \<Rightarrow> track \<Rightarrow> string" where
  "track_entry idx t =
     str_nat idx @ ''. _'' @ track_name t @ ''_ by '' @ artist_names (track_artists t)"

text \<open>
  The \<open>for item in items\<close> loop over one page, with the variables \<open>idx\<close> and
  \<open>track_entries\<close> it updates.
\<close>

fun for_items :: "item list \<Rightarrow> nat \<Rightarrow> string list \<Rightarrow> nat \<times> string list" where
  "for_items [] idx track_entries = (idx, track_entries)"
| "for_items (it # rest) idx track_entries =
     (case item_track it of
        None \<Rightarrow> for_items rest idx track_entries
      | Some t \<Rightarrow> for_items rest (idx + 1) (track_entries @ [track_entry (idx + 1) t]))"

text \<open>The \<open>while True\<close> loop of \<open>get_playlist_tracks\<close>.\<close>

partial_function (option) get_playlist_tracks_loop ::
  "spotify \<Rightarrow> string \<Rightarrow> nat \<Rightarrow> nat \<Rightarrow> nat \<Rightarrow> string list \<Rightarrow> (error + string list) option" where
  "get_playlist_tracks_loop sp pid limit offset idx track_entries =
     (case playlist_tracks sp pid offset limit of
        Inl e \<Rightarrow> Some (Inl e)
      | Inr results \<Rightarrow>
          if items results = [] then Some (Inr track_entries)
          else (case for_items (items results) idx track_entries of
                  (idx', track_entries') \<Rightarrow>
                    if truthy (next_link results)
                    then get_playlist_tracks_loop sp pid limit (offset + limit) idx' track_entries'
                    else Some (Inr track_entries')))"

definition get_playlist_tracks :: "spotify \<Rightarrow> string \<Rightarrow> (error + string list) option" where
  "get_playlist_tracks sp pid = get_playlist_tracks_loop sp pid 100 0 0 []"

text \<open>The tracks of a raw sequence that are not \<open>None\<close>, and the number of \<open>None\<close> entries.\<close>

fun available :: "item list \<Rightarrow> track list" where
  "available [] = []"
| "available (it # rest) =
     (case item_track it of None \<Rightarrow> available rest | Some t \<Rightarrow> t # available rest)"

definition nulls :: "item list \<Rightarrow> nat" where
  "nulls its = length (filter (\<lambda>it. item_track it = None) its)"

section \<open>Resolving a playlist name\<close>

text \<open>
  Two library functions the code calls are parameters of the model:
  \<open>unicodedata.normalize('NFKC', s)\<close> and thefuzz's
  \<open>process.extractBests(query, choices, score_cutoff, limit)\<close>, which returns pairs of
  a choice and its score.
\<close>

record library =
  normalize_NFKC :: "string \<Rightarrow> string"
  extractBests :: "string \<Rightarrow> string list \<Rightarrow> int \<Rightarrow> nat \<Rightarrow> (string \<times> int) list"

text \<open>The \<open>for playlist in playlists\<close> loop, which returns at the first match.\<close>

fun find_exact :: "library \<Rightarrow> playlist list \<Rightarrow> string \<Rightarrow> string option" where
  "find_exact lib [] inputted_playlist_name = None"
| "find_exact lib (p # rest) inputted_playlist_name =
     (let read_playlist_name = normalize_NFKC lib (strip (p_name p))
      in if lower read_playlist_name = lower inputted_playlist_name
         then Some (p_id p)
         else find_exact lib rest inputted_playlist_name)"

text \<open>
  A Python dict as an association list in insertion order: storing under a key
  that is present replaces its value and keeps its place.
\<close>

fun dict_set :: "'k \<Rightarrow> 'v \<Rightarrow> ('k \<times> 'v) list \<Rightarrow> ('k \<times> 'v) list" where
  "dict_set k v [] = [(k, v)]"
| "dict_set k v ((k', v') # d) = (if k' = k then (k', v) # d else (k', v') # dict_set k v d)"

definition playlist_names :: "library \<Rightarrow> playlist list \<Rightarrow> (string \<times> string) list" where
  "playlist_names lib playlists =
     foldl (\<lambda>d p. dict_set (normalize_NFKC lib (strip (p_name p))) (p_id p) d)
       [] playlists"

text \<open>
  The body of \<open>get_playlist_id_by_name\<close> once the playlists are fetched. The result
  is the returned value and the lines printed, one per call of \<open>print\<close>.
\<close>

definition lookup_playlist_id ::
  "library \<Rightarrow> playlist list \<Rightarrow> string \<Rightarrow> int \<Rightarrow> string option \<times> string list" where
  "lookup_playlist_id lib playlists inputted_playlist_name fuzzy_threshold =
     (case find_exact lib playlists inputted_playlist_name of
        Some pid \<Rightarrow> (Some pid, [])
      | None \<Rightarrow>
          (let matches = extractBests lib inputted_playlist_name
                           (map fst (playlist_names lib playlists)) fuzzy_threshold 3
           in if matches = [] then (None, [])
              else (None,
                    [''Exact playlist match not found for '' @ [CHR 0x27] @ inputted_playlist_name
                       @ [CHR 0x27] @ ''.'' @ [CHR 0x0A] @ ''Did you mean:'']
                    @ map (\<lambda>(name, score). ''- '' @ name @ ''?'') matches
                    @ [[CHR 0x0A]])))"

definition get_playlist_id_by_name ::
  "library \<Rightarrow> spotify \<Rightarrow> string \<Rightarrow> int \<Rightarrow> (error + string option \<times> string list) option" where
  "get_playlist_id_by_name lib sp inputted_playlist_name fuzzy_threshold =
     (case get_all_playlists sp of
        None \<Rightarrow> None
      | Some (Inl e) \<Rightarrow> Some (Inl e)
      | Some (Inr playlists) \<Rightarrow>
          Some (Inr (lookup_playlist_id lib playlists inputted_playlist_name fuzzy_threshold)))"

section \<open>Writing an archive\<close>

text \<open>
  The file system: the text of each regular file and the set of directories,
  both by path. Paths are compared as strings; the working directory is the empty path.
  A file opened with \<open>encoding="utf-8"\<close> holds text; the model keeps the text.
\<close>

record filesystem =
  files :: "string \<rightharpoonup> string"
  dirs :: "string set"

definition os_path_exists :: "filesystem \<Rightarrow> string \<Rightarrow> bool" where
  "os_path_exists fs p = (p \<in> dom (files fs) \<or> p \<in> dirs fs)"

definition os_makedirs :: "filesystem \<Rightarrow> string \<Rightarrow> filesystem" where
  "os_makedirs fs p = fs\<lparr>dirs := insert p (dirs fs)\<rparr>"

text \<open>The path up to its last \<open>/\<close>; empty when there is none.\<close>

definition parent_dir :: "string \<Rightarrow> string" where
  "parent_dir p = rev (drop 1 (dropWhile (\<lambda>c. c \<noteq> CHR ''/'') (rev p)))"

text \<open>
  \<open>open(path, "w")\<close> followed by the writes of \<open>content\<close>: it raises an \<open>OSError\<close>
  when \<open>path\<close> is a directory or its parent is not an existing directory, and
  otherwise replaces whatever the file held.
\<close>

definition open_w :: "filesystem \<Rightarrow> string \<Rightarrow> string \<Rightarrow> error + filesystem" where
  "open_w fs path content =
     (if path \<in> dirs fs then Inl OSError
      else if parent_dir path \<noteq> [] \<and> parent_dir path \<notin> dirs fs then Inl OSError
      else Inr (fs\<lparr>files := (files fs)(path \<mapsto> content)\<rparr>))"

definition output_filename :: "string \<Rightarrow> string" where
  "output_filename playlist_name =
     ''archive'' @ ''/'' @ lower (replace_space playlist_name) @ ''_playlist_archive.md''"

definition archive_text :: "string \<Rightarrow> string list \<Rightarrow> string" where
  "archive_text playlist_name tracks =
     (''# '' @ playlist_name @ '' Song Archive'' @ [CHR 0x0A, CHR 0x0A])
     @ concat (map (\<lambda>line. line @ [CHR 0x0A]) tracks)"

definition save_playlist_to_markdown ::
  "filesystem \<Rightarrow> string \<Rightarrow> string list \<Rightarrow> (error + string) \<times> filesystem" where
  "save_playlist_to_markdown fs playlist_name tracks =
     (let directory = ''archive'';
          fs1 = (if \<not> os_path_exists fs directory then os_makedirs fs directory else fs)
      in case open_w fs1 (output_filename playlist_name) (archive_text playlist_name tracks) of
           Inl e \<Rightarrow> (Inl e, fs1)
         | Inr fs2 \<Rightarrow> (Inr (output_filename playlist_name), fs2))"

section \<open>Batch and bulk archiving\<close>

text \<open>What a handler can change: the file system and the lines printed so far.\<close>

record world =
  disk :: filesystem
  stdout :: "string list"

definition print :: "world \<Rightarrow> string \<Rightarrow> world" where
  "print w line = w\<lparr>stdout := stdout w @ [line]\<rparr>"

text \<open>
  The loop of \<open>handle_archive_batch\<close> over the names read from the batch file. An
  exception leaves the loop; the result then holds the exception and the world as it
  was when it was raised.
\<close>

fun handle_archive_batch_loop ::
  "library \<Rightarrow> spotify \<Rightarrow> string list \<Rightarrow> world \<Rightarrow> ((error + unit) \<times> world) option" where
  "handle_archive_batch_loop lib sp [] w = Some (Inr (), w)"
| "handle_archive_batch_loop lib sp (playlist_name # rest) w =
     (let w1 = print w (''Archiving: '' @ playlist_name @ '' ...'')
      in case get_playlist_id_by_name lib sp playlist_name 80 of
           None \<Rightarrow> None
         | Some (Inl e) \<Rightarrow> Some (Inl e, w1)
         | Some (Inr (pid, printed)) \<Rightarrow>
             (let w2 = w1\<lparr>stdout := stdout w1 @ printed\<rparr>
              in if \<not> truthy pid
                 then handle_archive_batch_loop lib sp rest
                        (print w2 (''Playlist '' @ [CHR 0x27] @ playlist_name @ [CHR 0x27]
                                     @ '' not found. Skipping ...'' @ [CHR 0x0A]))
                 else (case get_playlist_tracks sp (the pid) of
                         None \<Rightarrow> None
                       | Some (Inl e) \<Rightarrow> Some (Inl e, w2)
                       | Some (Inr tracks) \<Rightarrow>
                           (case save_playlist_to_markdown (disk w2) playlist_name tracks of
                              (Inl e, fs') \<Rightarrow> Some (Inl e, w2\<lparr>disk := fs'\<rparr>)
                            | (Inr path, fs') \<Rightarrow>
                                handle_archive_batch_loop lib sp rest
                                  (print (w2\<lparr>disk := fs'\<rparr>)
                                     (''Successfully archived '' @ [CHR 0x27] @ playlist_name
                                        @ [CHR 0x27] @ [CHR 0x0A]))))))"



text \<open>
  \<open>handle_archive_playlist\<close>: the not-found case raises instead of skipping.
\<close>

definition handle_archive_playlist ::
  "library \<Rightarrow> spotify \<Rightarrow> string \<Rightarrow> world \<Rightarrow> ((error + unit) \<times> world) option" where
  "handle_archive_playlist lib sp user_input w =
     (if user_input = []
      then Some (Inl (PlaylistArchiverError
                        ''Please enter a valid playlist name after archive-playlist.''), w)
      else (case get_playlist_id_by_name lib sp user_input 80 of
              None \<Rightarrow> None
            | Some (Inl e) \<Rightarrow> Some (Inl e, w)
            | Some (Inr (pid, printed)) \<Rightarrow>
                (let w1 = w\<lparr>stdout := stdout w @ printed\<rparr>
                 in if \<not> truthy pid
                    then Some (Inl (PlaylistArchiverError
                                      (''Playlist '' @ [CHR 0x27] @ user_input @ [CHR 0x27]
                                         @ '' not found. Please try again.'')), w1)
                    else (case get_playlist_tracks sp (the pid) of
                            None \<Rightarrow> None
                          | Some (Inl e) \<Rightarrow> Some (Inl e, w1)
                          | Some (Inr tracks) \<Rightarrow>
                              (case save_playlist_to_markdown (disk w1) user_input tracks of
                                 (Inl e, fs') \<Rightarrow> Some (Inl e, w1\<lparr>disk := fs'\<rparr>)
                               | (Inr path, fs') \<Rightarrow>
                                   Some (Inr (), print (w1\<lparr>disk := fs'\<rparr>)
                                     (''Playlist '' @ [CHR 0x27] @ user_input @ [CHR 0x27]
                                        @ '' has been archived successfully to '' @ path)))))))"

text \<open>
  A remote that holds the playlists \<open>pls\<close> and, for each playlist id, the raw items
  \<open>tracks_of pid\<close>, and serves both in pages.
\<close>

definition remote_of :: "playlist list \<Rightarrow> (string \<Rightarrow> item list) \<Rightarrow> spotify" where
  "remote_of pls tracks_of =
     \<lparr>current_user_playlists = \<lambda>limit offset. Inr (page_of pls limit offset),
      playlist_tracks = \<lambda>pid offset limit. Inr (page_of (tracks_of pid) limit offset)\<rparr>"

text \<open>The lines of the tracks \<open>ts\<close>, numbered from 1 in their order.\<close>

definition numbered :: "track list \<Rightarrow> string list" where
  "numbered ts = map (\<lambda>i. track_entry (Suc i) (ts ! i)) [0..<length ts]"

section \<open>Example data\<close>

text \<open>The raw tracks of the specification's round-trip scenario.\<close>

definition spec_items :: "item list" where
  "spec_items =
     [\<lparr>item_track = Some \<lparr>track_name = ''Song A'',
                           track_artists = [\<lparr>artist_name = Some ''Artist X''\<rparr>]\<rparr>\<rparr>,
      \<lparr>item_track = None\<rparr>,
      \<lparr>item_track = Some \<lparr>track_name = ''Song B'', track_artists = []\<rparr>\<rparr>]"

definition three_playlists :: "playlist list" where
  "three_playlists =
     [\<lparr>p_id = ''p1'', p_name = ''Morning''\<rparr>,
      \<lparr>p_id = ''p2'', p_name = ''Noon''\<rparr>,
      \<lparr>p_id = ''p3'', p_name = ''Night''\<rparr>]"

text \<open>
  \<open>unicodedata.normalize('NFKC', s)\<close> on the text of the model, after the Unicode
  character database: ASCII and the letters of Latin-1 are in normal form; NO-BREAK
  SPACE becomes a space, and the ordinal indicators and superscript digits become the
  letter or digit. The normal forms of U+00A8, U+00AF, U+00B4, U+00B5, U+00B8 and
  U+00BC to U+00BE have code points above 255; these eight are left as they are and
  no example uses them.
\<close>

definition nfkc_char :: "char \<Rightarrow> char" where
  "nfkc_char c =
     (if c = CHR 0xA0 then CHR '' ''
      else if c = CHR 0xAA then CHR ''a''
      else if c = CHR 0xB2 then CHR ''2''
      else if c = CHR 0xB3 then CHR ''3''
      else if c = CHR 0xB9 then CHR ''1''
      else if c = CHR 0xBA then CHR ''o''
      else c)"

definition nfkc_latin1 :: "string \<Rightarrow> string" where
  "nfkc_latin1 s = map nfkc_char s"

text \<open>The libraries with this normalizer and any fuzzy matcher \<open>ex\<close>.\<close>

definition lib_with ::
  "(string \<Rightarrow> string list \<Rightarrow> int \<Rightarrow> nat \<Rightarrow> (string \<times> int) list) \<Rightarrow> library" where
  "lib_with ex = \<lparr>normalize_NFKC = nfkc_latin1, extractBests = ex\<rparr>"

text \<open>
  A remote whose every page is empty and has a next link.
\<close>

definition stuck_remote :: spotify where
  "stuck_remote =
     \<lparr>current_user_playlists = \<lambda>limit offset. Inr \<lparr>items = [], next_link = Some ''more''\<rparr>,
      playlist_tracks = \<lambda>pid offset limit. Inr \<lparr>items = [], next_link = Some ''more''\<rparr>\<rparr>"

text \<open>An empty working directory, with nothing printed.\<close>

definition empty_world :: world where
  "empty_world = \<lparr>disk = \<lparr>files = Map.empty, dirs = {}\<rparr>, stdout = []\<rparr>"

section \<open>Properties\<close>

lemma get_all_playlists_loop_page_of:
  assumes "0 < limit" and sp: "current_user_playlists sp = (\<lambda>l off. Inr (page_of xs l off))"
  shows "get_all_playlists_loop sp limit offset acc = Some (Inr (acc @ drop offset xs))"
proof (induction "length xs - offset" arbitrary: offset acc rule: less_induct)
  case less
  show ?case
  proof (cases "offset + limit < length xs")
    case True
    then have "length xs - (offset + limit) < length xs - offset"
      using assms by arith
    then have "get_all_playlists_loop sp limit (offset + limit) (acc @ take limit (drop offset xs))
        = Some (Inr ((acc @ take limit (drop offset xs)) @ drop (offset + limit) xs))"
      by (rule less)
    moreover have "take limit (drop offset xs) @ drop (offset + limit) xs = drop offset xs"
      by (metis add.commute append_take_drop_id drop_drop)
    ultimately show ?thesis
      using True by (subst get_all_playlists_loop.simps) (simp add: page_of_def sp)
  next
    case False
    then show ?thesis
      by (subst get_all_playlists_loop.simps) (simp add: page_of_def sp)
  qed
qed

lemma for_items_append:
  "for_items (xs @ ys) idx acc =
     for_items ys (fst (for_items xs idx acc)) (snd (for_items xs idx acc))"
  by (induction xs arbitrary: idx acc) (auto split: option.splits)

lemma for_items_available:
  "for_items its idx acc =
     (idx + length (available its),
      acc @ map (\<lambda>i. track_entry (idx + Suc i) (available its ! i)) [0..<length (available its)])"
proof (induction its arbitrary: idx acc)
  case Nil
  show ?case by simp
next
  case (Cons it rest)
  show ?case
  proof (cases "item_track it")
    case None
    then show ?thesis by (simp add: Cons)
  next
    case (Some t)
    have "map (\<lambda>i. track_entry (idx + Suc i) ((t # available rest) ! i)) [0..<Suc (length (available rest))]
        = track_entry (Suc idx) t
          # map (\<lambda>i. track_entry (Suc idx + Suc i) (available rest ! i)) [0..<length (available rest)]"
      by (simp add: upt_conv_Cons map_Suc_upt [symmetric] del: upt_Suc)
    with Some show ?thesis by (simp add: Cons)
  qed
qed

lemma length_available: "length (available its) = length its - nulls its"
proof (induction its)
  case Nil
  show ?case by (simp add: nulls_def)
next
  case (Cons it rest)
  have "nulls rest \<le> length rest"
    by (simp add: nulls_def)
  with Cons show ?case
    by (cases "item_track it") (auto simp: nulls_def Suc_diff_le)
qed

lemma get_playlist_tracks_loop_page_of:
  assumes "0 < limit" and sp: "playlist_tracks sp pid = (\<lambda>off l. Inr (page_of xs l off))"
  shows "get_playlist_tracks_loop sp pid limit offset idx acc
           = Some (Inr (snd (for_items (drop offset xs) idx acc)))"
proof (induction "length xs - offset" arbitrary: offset idx acc rule: less_induct)
  case less
  let ?pg = "take limit (drop offset xs)"
  have split: "for_items (drop offset xs) idx acc
      = for_items (drop (offset + limit) xs) (fst (for_items ?pg idx acc)) (snd (for_items ?pg idx acc))"
  proof -
    have "drop offset xs = ?pg @ drop (offset + limit) xs"
      by (metis add.commute append_take_drop_id drop_drop)
    then show ?thesis
      by (metis for_items_append)
  qed
  show ?case
  proof (cases "offset + limit < length xs")
    case True
    then have "length xs - (offset + limit) < length xs - offset"
      using assms by arith
    then have "get_playlist_tracks_loop sp pid limit (offset + limit)
          (fst (for_items ?pg idx acc)) (snd (for_items ?pg idx acc))
        = Some (Inr (snd (for_items (drop (offset + limit) xs)
                            (fst (for_items ?pg idx acc)) (snd (for_items ?pg idx acc)))))"
      by (rule less)
    moreover have "?pg \<noteq> []"
      using True assms by simp
    ultimately show ?thesis
      using True
      by (subst get_playlist_tracks_loop.simps, subst split) (simp add: page_of_def split_beta sp)
  next
    case False
    then have "drop (offset + limit) xs = []"
      by simp
    with False show ?thesis
      by (subst get_playlist_tracks_loop.simps, subst split) (simp add: page_of_def split_beta sp)
  qed
qed

lemma concat_map_upt_Suc:
  "concat (map f [0..<Suc (Suc k)]) = f 0 @ concat (map (\<lambda>j. f (Suc j)) [0..<Suc k])"
proof -
  have "[0..<Suc (Suc k)] = 0 # map Suc [0..<Suc k]"
    by (simp only: map_Suc_upt upt_conv_Cons [of 0 "Suc (Suc k)"] zero_less_Suc if_True)
  then show ?thesis
    by (simp only: list.map concat.simps map_map comp_def)
qed

lemma get_all_playlists_loop_pages:
  assumes "\<And>j. j < k \<Longrightarrow>
             \<exists>b. current_user_playlists sp limit (offset + j * limit) = Inr b \<and> truthy (next_link b)"
    and "\<exists>b. current_user_playlists sp limit (offset + k * limit) = Inr b \<and> \<not> truthy (next_link b)"
  shows "get_all_playlists_loop sp limit offset acc
           = Some (Inr (acc @ concat (map (\<lambda>j. items (projr (current_user_playlists sp limit
                                                     (offset + j * limit)))) [0..<Suc k])))"
  using assms
proof (induction k arbitrary: offset acc)
  case 0
  then obtain b where "current_user_playlists sp limit offset = Inr b" "\<not> truthy (next_link b)"
    by auto
  then show ?case
    by (subst get_all_playlists_loop.simps) simp
next
  case (Suc k)
  from Suc.prems(1) [of 0] obtain b where
    b: "current_user_playlists sp limit offset = Inr b" "truthy (next_link b)"
    by auto
  have more: "\<exists>b. current_user_playlists sp limit (offset + limit + j * limit) = Inr b
                  \<and> truthy (next_link b)" if "j < k" for j
    using Suc.prems(1) [of "Suc j"] that by (simp add: add.assoc)
  have last: "\<exists>b. current_user_playlists sp limit (offset + limit + k * limit) = Inr b
                  \<and> \<not> truthy (next_link b)"
    using Suc.prems(2) by (simp add: add.assoc)
  have "get_all_playlists_loop sp limit (offset + limit) (acc @ items b)
      = Some (Inr ((acc @ items b) @ concat (map (\<lambda>j. items (projr (current_user_playlists sp limit
                         (offset + limit + j * limit)))) [0..<Suc k])))"
    by (rule Suc.IH [OF more last])
  moreover have "concat (map (\<lambda>j. items (projr (current_user_playlists sp limit
                         (offset + j * limit)))) [0..<Suc (Suc k)])
      = items b @ concat (map (\<lambda>j. items (projr (current_user_playlists sp limit
                         (offset + limit + j * limit)))) [0..<Suc k])"
    by (subst concat_map_upt_Suc) (simp add: b add.assoc)
  ultimately show ?case
    using b by (subst get_all_playlists_loop.simps) simp
qed

lemma get_playlist_tracks_loop_pages:
  assumes "\<And>j. j < k \<Longrightarrow>
             \<exists>b. playlist_tracks sp pid (offset + j * limit) limit = Inr b
                  \<and> items b \<noteq> [] \<and> truthy (next_link b)"
    and "\<exists>b. playlist_tracks sp pid (offset + k * limit) limit = Inr b
             \<and> (items b = [] \<or> \<not> truthy (next_link b))"
  shows "get_playlist_tracks_loop sp pid limit offset idx acc
           = Some (Inr (snd (for_items
                (concat (map (\<lambda>j. items (projr (playlist_tracks sp pid (offset + j * limit) limit)))
                           [0..<Suc k])) idx acc)))"
  using assms
proof (induction k arbitrary: offset idx acc)
  case 0
  then obtain b where "playlist_tracks sp pid offset limit = Inr b"
      "items b = [] \<or> \<not> truthy (next_link b)"
    by auto
  then show ?case
    by (subst get_playlist_tracks_loop.simps) (auto simp: split_beta)
next
  case (Suc k)
  from Suc.prems(1) [of 0] obtain b where
    b: "playlist_tracks sp pid offset limit = Inr b" "items b \<noteq> []" "truthy (next_link b)"
    by auto
  have more: "\<exists>b. playlist_tracks sp pid (offset + limit + j * limit) limit = Inr b
                  \<and> items b \<noteq> [] \<and> truthy (next_link b)" if "j < k" for j
    using Suc.prems(1) [of "Suc j"] that by (simp add: add.assoc)
  have last: "\<exists>b. playlist_tracks sp pid (offset + limit + k * limit) limit = Inr b
                  \<and> (items b = [] \<or> \<not> truthy (next_link b))"
    using Suc.prems(2) by (simp add: add.assoc)
  let ?rest = "concat (map (\<lambda>j. items (projr (playlist_tracks sp pid
                         (offset + limit + j * limit) limit))) [0..<Suc k])"
  have "get_playlist_tracks_loop sp pid limit (offset + limit)
          (fst (for_items (items b) idx acc)) (snd (for_items (items b) idx acc))
      = Some (Inr (snd (for_items ?rest
          (fst (for_items (items b) idx acc)) (snd (for_items (items b) idx acc)))))"
    by (rule Suc.IH [OF more last])
  moreover have "concat (map (\<lambda>j. items (projr (playlist_tracks sp pid
                         (offset + j * limit) limit))) [0..<Suc (Suc k)])
      = items b @ ?rest"
    by (subst concat_map_upt_Suc) (simp add: b add.assoc)
  ultimately show ?case
    using b
    by (subst get_playlist_tracks_loop.simps) (simp add: split_beta for_items_append)
qed

lemma for_items_numbered:
  "for_items its 0 [] = (length its - nulls its, numbered (available its))"
  by (simp add: for_items_available numbered_def length_available)

lemma get_all_playlists_remote_of:
  "0 < P \<Longrightarrow> get_all_playlists_loop (remote_of pls tr) P 0 [] = Some (Inr pls)"
  using get_all_playlists_loop_page_of [of P "remote_of pls tr" pls 0 "[]"]
  by (simp add: remote_of_def)

lemma get_playlist_tracks_remote_of:
  "0 < P \<Longrightarrow> get_playlist_tracks_loop (remote_of pls tr) pid P 0 0 []
      = Some (Inr (numbered (available (tr pid))))"
  using get_playlist_tracks_loop_page_of [of P "remote_of pls tr" pid "tr pid" 0 0 "[]"]
  by (simp add: remote_of_def for_items_numbered)

subsection \<open>Pagination\<close>

text \<open>
  C1. A listing of \<open>N\<close> entries served in pages of size \<open>P\<close> is returned whole and in
  the remote order, for every \<open>N\<close> and every page size \<open>P > 0\<close>: by the playlist
  loop (page size 50 in \<open>get_all_playlists\<close>) as the playlists themselves, by the track
  loop (page size 100 in \<open>get_playlist_tracks\<close>) as the lines of the tracks that are
  not \<open>None\<close>. For any remote, each loop starts at offset 0, asks for the offsets
  \<open>0, P, 2P, ...\<close>, stops at the first page without a next link (the track loop also
  at an empty page), and returns what the pages held, in the order fetched.
\<close>

theorem pagination_returns_all_in_order:
  "(0 < P \<longrightarrow>
      get_all_playlists_loop (remote_of pls tr) P 0 [] = Some (Inr pls)
      \<and> get_playlist_tracks_loop (remote_of pls tr) pid P 0 0 []
          = Some (Inr (numbered (available (tr pid)))))
   \<and> get_all_playlists (remote_of pls tr) = Some (Inr pls)
   \<and> get_playlist_tracks (remote_of pls tr) pid = Some (Inr (numbered (available (tr pid))))
   \<and> ((\<forall>j<k. \<exists>b. current_user_playlists sp P (j * P) = Inr b \<and> truthy (next_link b))
        \<and> (\<exists>b. current_user_playlists sp P (k * P) = Inr b \<and> \<not> truthy (next_link b))
       \<longrightarrow> get_all_playlists_loop sp P 0 []
             = Some (Inr (concat (map (\<lambda>j. items (projr (current_user_playlists sp P (j * P))))
                                    [0..<Suc k]))))
   \<and> ((\<forall>j<k. \<exists>b. playlist_tracks sp pid (j * P) P = Inr b
                  \<and> items b \<noteq> [] \<and> truthy (next_link b))
        \<and> (\<exists>b. playlist_tracks sp pid (k * P) P = Inr b
                \<and> (items b = [] \<or> \<not> truthy (next_link b)))
       \<longrightarrow> get_playlist_tracks_loop sp pid P 0 0 []
             = Some (Inr (snd (for_items
                  (concat (map (\<lambda>j. items (projr (playlist_tracks sp pid (j * P) P))) [0..<Suc k]))
                  0 []))))"
proof (intro conjI impI)
  assume "0 < P"
  then show "get_all_playlists_loop (remote_of pls tr) P 0 [] = Some (Inr pls)"
    by (rule get_all_playlists_remote_of)
next
  assume "0 < P"
  then show "get_playlist_tracks_loop (remote_of pls tr) pid P 0 0 []
      = Some (Inr (numbered (available (tr pid))))"
    by (rule get_playlist_tracks_remote_of)
next
  show "get_all_playlists (remote_of pls tr) = Some (Inr pls)"
    by (simp add: get_all_playlists_def get_all_playlists_remote_of)
next
  show "get_playlist_tracks (remote_of pls tr) pid = Some (Inr (numbered (available (tr pid))))"
    by (simp add: get_playlist_tracks_def get_playlist_tracks_remote_of)
next
  assume h: "(\<forall>j<k. \<exists>b. current_user_playlists sp P (j * P) = Inr b \<and> truthy (next_link b))
      \<and> (\<exists>b. current_user_playlists sp P (k * P) = Inr b \<and> \<not> truthy (next_link b))"
  show "get_all_playlists_loop sp P 0 []
      = Some (Inr (concat (map (\<lambda>j. items (projr (current_user_playlists sp P (j * P))))
                             [0..<Suc k])))"
    using get_all_playlists_loop_pages [of k sp P 0 "[]"] h by simp
next
  assume h: "(\<forall>j<k. \<exists>b. playlist_tracks sp pid (j * P) P = Inr b
                 \<and> items b \<noteq> [] \<and> truthy (next_link b))
      \<and> (\<exists>b. playlist_tracks sp pid (k * P) P = Inr b
              \<and> (items b = [] \<or> \<not> truthy (next_link b)))"
  show "get_playlist_tracks_loop sp pid P 0 0 []
      = Some (Inr (snd (for_items
           (concat (map (\<lambda>j. items (projr (playlist_tracks sp pid (j * P) P))) [0..<Suc k]))
           0 [])))"
    using get_playlist_tracks_loop_pages [of k sp pid 0 P 0 "[]"] h by simp
qed

text \<open>
  The case \<open>N = P + 1\<close>: three playlists and three items in pages of two, fetched at
  the offsets 0 and 2.
\<close>

theorem pagination_returns_all_in_order_witness:
  "get_all_playlists_loop (remote_of three_playlists (\<lambda>pid. spec_items)) 2 0 []
     = Some (Inr three_playlists)
   \<and> get_playlist_tracks_loop (remote_of three_playlists (\<lambda>pid. spec_items)) ''p1'' 2 0 0 []
     = Some (Inr [''1. _Song A_ by Artist X'', ''2. _Song B_ by Unknown Artist''])
   \<and> get_all_playlists_loop (remote_of three_playlists (\<lambda>pid. spec_items)) 2 0 []
     = Some (Inr (take 2 three_playlists @ drop 2 three_playlists))
   \<and> get_playlist_tracks_loop (remote_of three_playlists (\<lambda>pid. spec_items)) ''p1'' 2 0 0 []
     = Some (Inr (snd (for_items (take 2 spec_items @ drop 2 spec_items) 0 [])))"
proof -
  let ?sp = "remote_of three_playlists (\<lambda>pid. spec_items)"
  note inst = pagination_returns_all_in_order
    [where P = 2 and pls = three_playlists and tr = "\<lambda>pid. spec_items" and pid = "''p1''"
       and k = 1 and sp = ?sp]
  have lines: "numbered (available spec_items)
      = [''1. _Song A_ by Artist X'', ''2. _Song B_ by Unknown Artist'']"
    by code_simp
  have h1: "\<forall>j<1::nat. \<exists>b. current_user_playlists ?sp 2 (j * 2) = Inr b \<and> truthy (next_link b)"
    by (simp add: remote_of_def page_of_def three_playlists_def)
  have h2: "\<exists>b. current_user_playlists ?sp 2 (1 * 2) = Inr b \<and> \<not> truthy (next_link b)"
    by (simp add: remote_of_def page_of_def three_playlists_def)
  have c1: "concat (map (\<lambda>j. items (projr (current_user_playlists ?sp 2 (j * 2)))) [0..<Suc 1])
      = take 2 three_playlists @ drop 2 three_playlists"
    by (simp add: remote_of_def page_of_def three_playlists_def)
  have h3: "\<forall>j<1::nat. \<exists>b. playlist_tracks ?sp ''p1'' (j * 2) 2 = Inr b
      \<and> items b \<noteq> [] \<and> truthy (next_link b)"
    by (simp add: remote_of_def page_of_def spec_items_def)
  have h4: "\<exists>b. playlist_tracks ?sp ''p1'' (1 * 2) 2 = Inr b
      \<and> (items b = [] \<or> \<not> truthy (next_link b))"
    by (simp add: remote_of_def page_of_def spec_items_def)
  have c2: "concat (map (\<lambda>j. items (projr (playlist_tracks ?sp ''p1'' (j * 2) 2))) [0..<Suc 1])
      = take 2 spec_items @ drop 2 spec_items"
    by (simp add: remote_of_def page_of_def spec_items_def)
  have served: "get_all_playlists_loop ?sp 2 0 [] = Some (Inr three_playlists)
      \<and> get_playlist_tracks_loop ?sp ''p1'' 2 0 0 [] = Some (Inr (numbered (available spec_items)))"
    using inst by simp
  have fetched: "get_all_playlists_loop ?sp 2 0 []
      = Some (Inr (concat (map (\<lambda>j. items (projr (current_user_playlists ?sp 2 (j * 2))))
                             [0..<Suc 1])))"
    using inst h1 h2 by blast
  have fetched_tracks: "get_playlist_tracks_loop ?sp ''p1'' 2 0 0 []
      = Some (Inr (snd (for_items
           (concat (map (\<lambda>j. items (projr (playlist_tracks ?sp ''p1'' (j * 2) 2))) [0..<Suc 1]))
           0 [])))"
    using inst h3 h4 by blast
  show ?thesis
    using served fetched [unfolded c1] fetched_tracks [unfolded c2] by (simp only: lines)
qed

subsection \<open>Track lines\<close>

text \<open>
  C2. A raw track sequence of \<open>n\<close> entries of which \<open>k\<close> are \<open>None\<close> gives exactly
  \<open>n - k\<close> lines, and line \<open>i\<close> (from 0) carries the number \<open>i + 1\<close>: a \<open>None\<close>
  entry adds no line and leaves the counter as it is, the counter ends at \<open>n - k\<close>,
  and the numbering runs on across the pages of \<open>get_playlist_tracks\<close>.
\<close>

theorem null_tracks_skipped_numbering_contiguous:
  "get_playlist_tracks (remote_of pls tr) pid = Some (Inr (numbered (available (tr pid))))
   \<and> for_items its 0 [] = (length its - nulls its, numbered (available its))
   \<and> length (numbered (available its)) = length its - nulls its
   \<and> (\<forall>i < length its - nulls its.
         numbered (available its) ! i
           = str_nat (Suc i) @ ''. _'' @ track_name (available its ! i) @ ''_ by ''
             @ artist_names (track_artists (available its ! i)))
   \<and> for_items (\<lparr>item_track = None\<rparr> # its) idx acc = for_items its idx acc"
proof (intro conjI allI impI)
  show "get_playlist_tracks (remote_of pls tr) pid = Some (Inr (numbered (available (tr pid))))"
    by (simp add: get_playlist_tracks_def get_playlist_tracks_remote_of)
  show "for_items its 0 [] = (length its - nulls its, numbered (available its))"
    by (rule for_items_numbered)
  show "length (numbered (available its)) = length its - nulls its"
    by (simp add: numbered_def length_available)
  show "for_items (\<lparr>item_track = None\<rparr> # its) idx acc = for_items its idx acc"
    by simp
next
  fix i
  assume "i < length its - nulls its"
  then have "i < length (available its)"
    by (simp add: length_available)
  then show "numbered (available its) ! i
      = str_nat (Suc i) @ ''. _'' @ track_name (available its ! i) @ ''_ by ''
        @ artist_names (track_artists (available its ! i))"
    by (simp add: numbered_def track_entry_def)
qed

theorem null_tracks_skipped_numbering_contiguous_witness:
  "(1::nat) < length spec_items - nulls spec_items
   \<and> numbered (available spec_items) ! 1 = ''2. _Song B_ by Unknown Artist''"
proof -
  have n: "length spec_items - nulls spec_items = 2"
    by code_simp
  have "str_nat (Suc 1) @ ''. _'' @ track_name (available spec_items ! 1) @ ''_ by ''
          @ artist_names (track_artists (available spec_items ! 1))
      = ''2. _Song B_ by Unknown Artist''"
    by code_simp
  then show ?thesis
    using null_tracks_skipped_numbering_contiguous [where its = spec_items] n by simp
qed

text \<open>
  C9 as the specification words it fails for a list that holds an artist without a name
  beside others: the segment is then the comma-separated list, in which
  \<open>Unknown Artist\<close> is one part, and not the string \<open>Unknown Artist\<close> alone.
\<close>

theorem unknown_artist_among_others_counterexample:
  "artist_name \<lparr>artist_name = None\<rparr> = None
   \<and> artist_names [\<lparr>artist_name = None\<rparr>, \<lparr>artist_name = Some ''B''\<rparr>] = ''Unknown Artist, B''
   \<and> artist_names [\<lparr>artist_name = None\<rparr>, \<lparr>artist_name = Some ''B''\<rparr>] \<noteq> ''Unknown Artist''
   \<and> track_entry 1 \<lparr>track_name = ''T'',
                       track_artists = [\<lparr>artist_name = None\<rparr>, \<lparr>artist_name = Some ''B''\<rparr>]\<rparr>
       = ''1. _T_ by Unknown Artist, B''"
  by (simp add: artist_names_def artist_or_unknown_def track_entry_def str_nat.simps digit_def
      char_of_def bit_0)

text \<open>
  C9, as the code has it. A track with an empty artist list has the artist segment
  \<open>Unknown Artist\<close>. An artist entry whose name is \<open>None\<close> or empty is rendered as
  \<open>Unknown Artist\<close>: this is the whole segment when the entry is the only one, and
  the entry's part of the comma-separated segment otherwise.
\<close>

theorem unknown_artist_rendering:
  "artist_names [] = ''Unknown Artist''
   \<and> track_entry idx (t\<lparr>track_artists := []\<rparr>)
       = str_nat idx @ ''. _'' @ track_name t @ ''_ by Unknown Artist''
   \<and> (\<not> truthy (artist_name a) \<longrightarrow>
        artist_or_unknown a = ''Unknown Artist'' \<and> artist_names [a] = ''Unknown Artist'')
   \<and> (artists \<noteq> [] \<longrightarrow> artist_names artists = join '', '' (map artist_or_unknown artists))"
  by (simp add: artist_names_def artist_or_unknown_def track_entry_def)

theorem unknown_artist_rendering_witness:
  "\<not> truthy (artist_name \<lparr>artist_name = None\<rparr>)
   \<and> artist_names [\<lparr>artist_name = None\<rparr>] = ''Unknown Artist''
   \<and> artist_names [\<lparr>artist_name = Some ''A''\<rparr>, \<lparr>artist_name = None\<rparr>] = ''A, Unknown Artist''"
  using unknown_artist_rendering
    [where a = "\<lparr>artist_name = None\<rparr>"
       and artists = "[\<lparr>artist_name = Some ''A''\<rparr>, \<lparr>artist_name = None\<rparr>]"]
  by (simp add: artist_or_unknown_def)

subsection \<open>Name resolution\<close>

lemma find_exact_find:
  "find_exact lib playlists q
     = map_option p_id
         (find (\<lambda>p. lower (normalize_NFKC lib (strip (p_name p))) = lower q) playlists)"
  by (induction playlists) simp_all

lemma find_exact_first:
  assumes "playlists = pre @ p # post"
    and "\<forall>x\<in>set pre. lower (normalize_NFKC lib (strip (p_name x))) \<noteq> lower q"
    and "lower (normalize_NFKC lib (strip (p_name p))) = lower q"
  shows "find_exact lib playlists q = Some (p_id p)"
  using assms by (induction pre arbitrary: playlists) auto

lemma find_exact_None:
  "(find_exact lib playlists q = None)
     = (\<forall>p\<in>set playlists. lower (normalize_NFKC lib (strip (p_name p))) \<noteq> lower q)"
  by (induction playlists) auto

lemma find_exact_Some:
  "find_exact lib playlists q = Some pid \<Longrightarrow>
     \<exists>p\<in>set playlists. p_id p = pid \<and> lower (normalize_NFKC lib (strip (p_name p))) = lower q"
  by (induction playlists) (auto split: if_splits)

lemma find_exact_extractBests [simp]:
  "find_exact (lib\<lparr>extractBests := ex\<rparr>) playlists q = find_exact lib playlists q"
  by (induction playlists) simp_all

text \<open>
  C3, as the code has it. The resolver strips and NFKC-normalizes every playlist name
  and compares its lowercase form with the lowercase form of the query as it was
  passed: the query itself is neither stripped nor normalized. The first playlist in
  listing order that matches is returned, nothing is printed, and the result does not
  depend on the fuzzy matcher.
\<close>

theorem exact_match_first_in_listing_order:
  "find_exact lib playlists q
     = map_option p_id
         (find (\<lambda>p. lower (normalize_NFKC lib (strip (p_name p))) = lower q) playlists)
   \<and> (playlists = pre @ p # post
        \<and> (\<forall>x\<in>set pre. lower (normalize_NFKC lib (strip (p_name x))) \<noteq> lower q)
        \<and> lower (normalize_NFKC lib (strip (p_name p))) = lower q
       \<longrightarrow> lookup_playlist_id (lib\<lparr>extractBests := ex\<rparr>) playlists q threshold
             = (Some (p_id p), []))"
proof (intro conjI impI)
  show "find_exact lib playlists q
      = map_option p_id
          (find (\<lambda>p. lower (normalize_NFKC lib (strip (p_name p))) = lower q) playlists)"
    by (rule find_exact_find)
next
  assume "playlists = pre @ p # post
      \<and> (\<forall>x\<in>set pre. lower (normalize_NFKC lib (strip (p_name x))) \<noteq> lower q)
      \<and> lower (normalize_NFKC lib (strip (p_name p))) = lower q"
  then have "find_exact lib playlists q = Some (p_id p)"
    by (simp add: find_exact_first)
  then show "lookup_playlist_id (lib\<lparr>extractBests := ex\<rparr>) playlists q threshold
      = (Some (p_id p), [])"
    by (simp add: lookup_playlist_id_def)
qed

text \<open>
  Two playlists whose names differ in case and outer spaces only: the query selects
  the first, whatever the fuzzy matcher would answer.
\<close>

theorem exact_match_first_in_listing_order_witness:
  "\<forall>ex. lookup_playlist_id (lib_with ex)
          [\<lparr>p_id = ''p1'', p_name = ''Jazz''\<rparr>,
           \<lparr>p_id = ''p2'', p_name = '' road trip ''\<rparr>,
           \<lparr>p_id = ''p3'', p_name = ''Road Trip''\<rparr>] ''ROAD TRIP'' 80
        = (Some ''p2'', [])"
proof
  fix ex
  have "lookup_playlist_id ((lib_with ex)\<lparr>extractBests := ex\<rparr>)
          [\<lparr>p_id = ''p1'', p_name = ''Jazz''\<rparr>,
           \<lparr>p_id = ''p2'', p_name = '' road trip ''\<rparr>,
           \<lparr>p_id = ''p3'', p_name = ''Road Trip''\<rparr>] ''ROAD TRIP'' 80
      = (Some (p_id \<lparr>p_id = ''p2'', p_name = '' road trip ''\<rparr>), [])"
    using exact_match_first_in_listing_order
      [where lib = "lib_with ex" and ex = ex and q = "''ROAD TRIP''" and threshold = 80
         and pre = "[\<lparr>p_id = ''p1'', p_name = ''Jazz''\<rparr>]"
         and p = "\<lparr>p_id = ''p2'', p_name = '' road trip ''\<rparr>"
         and post = "[\<lparr>p_id = ''p3'', p_name = ''Road Trip''\<rparr>]"
         and playlists = "[\<lparr>p_id = ''p1'', p_name = ''Jazz''\<rparr>,
           \<lparr>p_id = ''p2'', p_name = '' road trip ''\<rparr>,
           \<lparr>p_id = ''p3'', p_name = ''Road Trip''\<rparr>]"]
    by (simp add: lib_with_def nfkc_latin1_def nfkc_char_def strip_def isspace_def
        lower_def lower_char_def char_of_def bit_0)
  then show "lookup_playlist_id (lib_with ex)
          [\<lparr>p_id = ''p1'', p_name = ''Jazz''\<rparr>,
           \<lparr>p_id = ''p2'', p_name = '' road trip ''\<rparr>,
           \<lparr>p_id = ''p3'', p_name = ''Road Trip''\<rparr>] ''ROAD TRIP'' 80
        = (Some ''p2'', [])"
    by (simp add: lib_with_def)
qed

text \<open>
  C3 as the specification words it fails, since the query is not normalized.
  A query with a leading space does not select the playlist whose name it is once
  stripped; and a query spelt with the ordinal indicator U+00BA between \<open>N\<close> and
  \<open>1\<close>, whose NFKC form is \<open>No1\<close>, does not select the playlist of that very name. In both cases the normalized forms are equal and the
  resolver returns \<open>None\<close>.
\<close>

theorem query_not_normalized_counterexample:
  "\<forall>ex.
     lower (nfkc_latin1 (strip ''Mix'')) = lower (nfkc_latin1 (strip '' Mix''))
     \<and> fst (lookup_playlist_id (lib_with ex) [\<lparr>p_id = ''p1'', p_name = ''Mix''\<rparr>] '' Mix'' 80)
         = None
     \<and> nfkc_latin1 (strip [CHR ''N'', CHR 0xBA, CHR ''1'']) = ''No1''
     \<and> fst (lookup_playlist_id (lib_with ex)
              [\<lparr>p_id = ''p1'', p_name = [CHR ''N'', CHR 0xBA, CHR ''1'']\<rparr>]
              [CHR ''N'', CHR 0xBA, CHR ''1''] 80)
         = None"
  by (simp add: lookup_playlist_id_def Let_def lib_with_def nfkc_latin1_def nfkc_char_def
      strip_def isspace_def lower_def lower_char_def char_of_def bit_0)

lemma lookup_playlist_id_no_exact:
  assumes "\<forall>p\<in>set playlists. lower (normalize_NFKC lib (strip (p_name p))) \<noteq> lower q"
  shows "fst (lookup_playlist_id lib playlists q threshold) = None"
proof -
  have "find_exact lib playlists q = None"
    using assms by (simp add: find_exact_None)
  then show ?thesis
    by (simp add: lookup_playlist_id_def Let_def)
qed

lemma batch_skip:
  assumes "get_playlist_id_by_name lib sp n 80 = Some (Inr (r, printed))" and "\<not> truthy r"
  shows "handle_archive_batch_loop lib sp (n # rest) w
     = handle_archive_batch_loop lib sp rest
         (w\<lparr>stdout := stdout w @ [''Archiving: '' @ n @ '' ...''] @ printed
               @ [''Playlist '' @ [CHR 0x27] @ n @ [CHR 0x27] @ '' not found. Skipping ...''
                    @ [CHR 0x0A]]\<rparr>)"
  using assms by (simp add: print_def Let_def)

text \<open>
  C10. The resolver returns a playlist id only when the normalized name of some
  playlist of the listing equals the query, letter case apart, and the id is that
  playlist's. Without such a playlist the returned value is \<open>None\<close> whatever the fuzzy
  matcher finds: its matches are only printed as suggestions. The batch loop then
  skips the name and \<open>handle_archive_playlist\<close> raises; neither touches the file
  system.
\<close>

theorem id_only_from_exact_match:
  "(fst (lookup_playlist_id lib playlists q threshold) = Some pid \<longrightarrow>
      (\<exists>p\<in>set playlists. p_id p = pid
          \<and> lower (normalize_NFKC lib (strip (p_name p))) = lower q))
   \<and> (get_playlist_id_by_name lib sp q threshold = Some (Inr (Some pid, printed)) \<longrightarrow>
        (\<exists>pls. get_all_playlists sp = Some (Inr pls)
           \<and> (\<exists>p\<in>set pls. p_id p = pid
                 \<and> lower (normalize_NFKC lib (strip (p_name p))) = lower q)))
   \<and> ((\<forall>p\<in>set playlists. lower (normalize_NFKC lib (strip (p_name p))) \<noteq> lower q) \<longrightarrow>
        lookup_playlist_id lib playlists q threshold
          = (None,
             let matches = extractBests lib q (map fst (playlist_names lib playlists)) threshold 3
             in if matches = [] then []
                else [''Exact playlist match not found for '' @ [CHR 0x27] @ q @ [CHR 0x27]
                        @ ''.'' @ [CHR 0x0A] @ ''Did you mean:'']
                     @ map (\<lambda>(name, score). ''- '' @ name @ ''?'') matches @ [[CHR 0x0A]]))
   \<and> (get_all_playlists sp = Some (Inr playlists)
        \<and> (\<forall>p\<in>set playlists. lower (normalize_NFKC lib (strip (p_name p))) \<noteq> lower q) \<longrightarrow>
        (\<exists>w'. handle_archive_batch_loop lib sp (q # rest) w
                = handle_archive_batch_loop lib sp rest w' \<and> disk w' = disk w)
        \<and> (\<exists>msg w'. handle_archive_playlist lib sp q w
                = Some (Inl (PlaylistArchiverError msg), w') \<and> disk w' = disk w))"
proof (intro conjI impI)
  assume "fst (lookup_playlist_id lib playlists q threshold) = Some pid"
  then have "find_exact lib playlists q = Some pid"
    by (auto simp: lookup_playlist_id_def Let_def split: option.splits if_splits)
  then show "\<exists>p\<in>set playlists. p_id p = pid
      \<and> lower (normalize_NFKC lib (strip (p_name p))) = lower q"
    by (rule find_exact_Some)
next
  assume a: "get_playlist_id_by_name lib sp q threshold = Some (Inr (Some pid, printed))"
  then obtain pls where pls: "get_all_playlists sp = Some (Inr pls)"
      and "lookup_playlist_id lib pls q threshold = (Some pid, printed)"
    by (auto simp: get_playlist_id_by_name_def split: option.splits sum.splits)
  then have "find_exact lib pls q = Some pid"
    by (auto simp: lookup_playlist_id_def Let_def split: option.splits if_splits)
  then have "\<exists>p\<in>set pls. p_id p = pid
      \<and> lower (normalize_NFKC lib (strip (p_name p))) = lower q"
    by (rule find_exact_Some)
  with pls show "\<exists>pls. get_all_playlists sp = Some (Inr pls)
      \<and> (\<exists>p\<in>set pls. p_id p = pid
            \<and> lower (normalize_NFKC lib (strip (p_name p))) = lower q)"
    by blast
next
  assume "\<forall>p\<in>set playlists. lower (normalize_NFKC lib (strip (p_name p))) \<noteq> lower q"
  then have "find_exact lib playlists q = None"
    by (simp add: find_exact_None)
  then show "lookup_playlist_id lib playlists q threshold
      = (None,
         let matches = extractBests lib q (map fst (playlist_names lib playlists)) threshold 3
         in if matches = [] then []
            else [''Exact playlist match not found for '' @ [CHR 0x27] @ q @ [CHR 0x27]
                    @ ''.'' @ [CHR 0x0A] @ ''Did you mean:'']
                 @ map (\<lambda>(name, score). ''- '' @ name @ ''?'') matches @ [[CHR 0x0A]])"
    by (simp add: lookup_playlist_id_def Let_def)
next
  assume a: "get_all_playlists sp = Some (Inr playlists)
      \<and> (\<forall>p\<in>set playlists. lower (normalize_NFKC lib (strip (p_name p))) \<noteq> lower q)"
  then have none: "fst (lookup_playlist_id lib playlists q 80) = None"
    by (simp add: lookup_playlist_id_no_exact)
  then obtain printed where r: "get_playlist_id_by_name lib sp q 80 = Some (Inr (None, printed))"
    using a by (cases "lookup_playlist_id lib playlists q 80")
      (simp add: get_playlist_id_by_name_def)
  show "\<exists>w'. handle_archive_batch_loop lib sp (q # rest) w
      = handle_archive_batch_loop lib sp rest w' \<and> disk w' = disk w"
  proof (intro exI conjI)
    show "handle_archive_batch_loop lib sp (q # rest) w
        = handle_archive_batch_loop lib sp rest
            (w\<lparr>stdout := stdout w @ [''Archiving: '' @ q @ '' ...''] @ printed
                  @ [''Playlist '' @ [CHR 0x27] @ q @ [CHR 0x27] @ '' not found. Skipping ...''
                       @ [CHR 0x0A]]\<rparr>)"
      using r by (rule batch_skip) simp
  qed simp
  show "\<exists>msg w'. handle_archive_playlist lib sp q w
      = Some (Inl (PlaylistArchiverError msg), w') \<and> disk w' = disk w"
    using r by (cases "q = []") (simp_all add: handle_archive_playlist_def)
qed

text \<open>
  A query one letter away from the only playlist, with a fuzzy matcher that offers
  that playlist: the suggestion is printed, no id is returned, the batch loop skips
  the name and writes nothing.
\<close>

theorem id_only_from_exact_match_witness:
  "lookup_playlist_id (lib_with (\<lambda>q choices cutoff limit. [(''Summer Vibes'', 96)]))
       [\<lparr>p_id = ''p1'', p_name = ''Summer Vibes''\<rparr>] ''Summr Vibes'' 80
     = (None, [''Exact playlist match not found for '' @ [CHR 0x27] @ ''Summr Vibes''
                 @ [CHR 0x27] @ ''.'' @ [CHR 0x0A] @ ''Did you mean:'',
               ''- Summer Vibes?'', [CHR 0x0A]])
   \<and> (\<exists>w'. handle_archive_batch_loop (lib_with (\<lambda>q choices cutoff limit. [(''Summer Vibes'', 96)]))
              (remote_of [\<lparr>p_id = ''p1'', p_name = ''Summer Vibes''\<rparr>] (\<lambda>pid. spec_items))
              [''Summr Vibes''] empty_world = Some (Inr (), w')
          \<and> disk w' = disk empty_world)
   \<and> get_playlist_id_by_name (lib_with (\<lambda>q choices cutoff limit. [(''Summer Vibes'', 96)]))
         (remote_of [\<lparr>p_id = ''p1'', p_name = ''Summer Vibes''\<rparr>] (\<lambda>pid. spec_items))
         ''summer vibes'' 80 = Some (Inr (Some ''p1'', []))
   \<and> (\<exists>p\<in>set [\<lparr>p_id = ''p1'', p_name = ''Summer Vibes''\<rparr>].
         p_id p = ''p1'' \<and> lower (nfkc_latin1 (strip (p_name p))) = lower ''summer vibes'')"
proof -
  let ?lib = "lib_with (\<lambda>q choices cutoff limit. [(''Summer Vibes'', 96)])"
  let ?pls = "[\<lparr>p_id = ''p1'', p_name = ''Summer Vibes''\<rparr>]"
  let ?sp = "remote_of ?pls (\<lambda>pid. spec_items)"
  note inst = id_only_from_exact_match
    [where lib = ?lib and playlists = ?pls and q = "''Summr Vibes''" and threshold = 80
       and sp = ?sp and rest = "[]" and w = empty_world]
  note inst' = id_only_from_exact_match
    [where lib = ?lib and playlists = ?pls and q = "''summer vibes''" and threshold = 80
       and sp = ?sp and pid = "''p1''" and printed = "[]"]
  have no: "\<forall>p\<in>set ?pls. lower (normalize_NFKC ?lib (strip (p_name p))) \<noteq> lower ''Summr Vibes''"
    by (simp add: lib_with_def nfkc_latin1_def nfkc_char_def strip_def isspace_def
        lower_def lower_char_def char_of_def bit_0)
  have all: "get_all_playlists ?sp = Some (Inr ?pls)"
    using get_all_playlists_remote_of [of 50 ?pls] by (simp add: get_all_playlists_def)
  have found: "lookup_playlist_id ?lib ?pls ''summer vibes'' 80 = (Some ''p1'', [])"
    by (simp add: lookup_playlist_id_def lib_with_def nfkc_latin1_def nfkc_char_def strip_def
        isspace_def lower_def lower_char_def char_of_def bit_0)
  have by_name: "get_playlist_id_by_name ?lib ?sp ''summer vibes'' 80 = Some (Inr (Some ''p1'', []))"
    by (simp add: get_playlist_id_by_name_def all found)
  from inst no have "lookup_playlist_id ?lib ?pls ''Summr Vibes'' 80
      = (None,
         let matches = extractBests ?lib ''Summr Vibes'' (map fst (playlist_names ?lib ?pls)) 80 3
         in if matches = [] then []
            else [''Exact playlist match not found for '' @ [CHR 0x27] @ ''Summr Vibes''
                    @ [CHR 0x27] @ ''.'' @ [CHR 0x0A] @ ''Did you mean:'']
                 @ map (\<lambda>(name, score). ''- '' @ name @ ''?'') matches @ [[CHR 0x0A]])"
    by blast
  moreover from inst no all have "\<exists>w'. handle_archive_batch_loop ?lib ?sp [''Summr Vibes''] empty_world
      = handle_archive_batch_loop ?lib ?sp [] w' \<and> disk w' = disk empty_world"
    by blast
  moreover from inst' found have "\<exists>p\<in>set ?pls. p_id p = ''p1''
      \<and> lower (normalize_NFKC ?lib (strip (p_name p))) = lower ''summer vibes''"
    by simp
  moreover from inst' by_name have "\<exists>pls. get_all_playlists ?sp = Some (Inr pls)"
    by blast
  ultimately show ?thesis
    using by_name by (simp add: lib_with_def)
qed

subsection \<open>The archive file\<close>

lemma lower_char_slash: "lower_char c = CHR ''/'' \<Longrightarrow> c = CHR ''/''"
proof (rule ccontr)
  assume l: "lower_char c = CHR ''/''" and "c \<noteq> CHR ''/''"
  then have range: "(65 \<le> (of_char c :: nat) \<and> (of_char c :: nat) \<le> 90)
      \<or> (192 \<le> (of_char c :: nat) \<and> (of_char c :: nat) \<le> 222 \<and> (of_char c :: nat) \<noteq> 215)"
    and "char_of ((of_char c :: nat) + 32) = CHR ''/''"
    by (auto simp: lower_char_def Let_def split: if_splits)
  then have "(of_char (char_of ((of_char c :: nat) + 32)) :: nat) = of_char CHR ''/''"
    by simp
  then have "((of_char c :: nat) + 32) mod 256 = 47"
    by (simp add: of_char_of)
  with range show False
    by auto
qed

lemma slug_no_slash:
  assumes "CHR ''/'' \<notin> set name"
  shows "CHR ''/'' \<notin> set (lower (replace_space name))"
proof
  assume "CHR ''/'' \<in> set (lower (replace_space name))"
  then obtain x where x: "x \<in> set name"
      and l: "lower_char (if x = CHR '' '' then CHR ''_'' else x) = CHR ''/''"
    by (auto simp: lower_def replace_space_def)
  from l have "(if x = CHR '' '' then CHR ''_'' else x) = CHR ''/''"
    by (rule lower_char_slash)
  then have "x = CHR ''/''"
    by (simp split: if_splits)
  with x assms show False
    by simp
qed

lemma parent_dir_append:
  assumes "CHR ''/'' \<notin> set b"
  shows "parent_dir (a @ CHR ''/'' # b) = a"
proof -
  have "dropWhile (\<lambda>c. c \<noteq> CHR ''/'') (rev b @ CHR ''/'' # rev a) = CHR ''/'' # rev a"
    using assms by (subst dropWhile_append2) auto
  then show ?thesis
    by (simp add: parent_dir_def)
qed

lemma parent_dir_output_filename:
  assumes "CHR ''/'' \<notin> set name"
  shows "parent_dir (output_filename name) = ''archive''"
proof -
  have "CHR ''/'' \<notin> set (lower (replace_space name) @ ''_playlist_archive.md'')"
    using slug_no_slash [OF assms] by simp
  then have "parent_dir (''archive'' @ CHR ''/'' # (lower (replace_space name) @ ''_playlist_archive.md''))
      = ''archive''"
    by (rule parent_dir_append)
  then show ?thesis
    by (simp add: output_filename_def)
qed

lemma save_path:
  "fst (save_playlist_to_markdown fs name tracks) = Inr path \<Longrightarrow> path = output_filename name"
  by (auto simp: save_playlist_to_markdown_def Let_def split: sum.splits)

lemma save_content:
  "fst (save_playlist_to_markdown fs name tracks) = Inr path \<Longrightarrow>
     files (snd (save_playlist_to_markdown fs name tracks)) path = Some (archive_text name tracks)"
  by (auto simp: save_playlist_to_markdown_def Let_def open_w_def split: sum.splits if_splits)

lemma save_succeeds:
  assumes "CHR ''/'' \<notin> set name" and "''archive'' \<notin> dom (files fs)"
    and "output_filename name \<notin> dirs fs"
  shows "fst (save_playlist_to_markdown fs name tracks) = Inr (output_filename name)"
proof -
  have "output_filename name \<noteq> ''archive''"
    by (simp add: output_filename_def)
  with assms show ?thesis
    by (simp add: save_playlist_to_markdown_def Let_def open_w_def os_path_exists_def
        os_makedirs_def parent_dir_output_filename)
qed

lemma save_again:
  assumes "save_playlist_to_markdown fs name t1 = (Inr p1, fs1)"
  shows "save_playlist_to_markdown fs1 name t2
     = (Inr p1, fs1\<lparr>files := (files fs1)(p1 \<mapsto> archive_text name t2)\<rparr>)"
proof -
  let ?fs0 = "if \<not> os_path_exists fs ''archive'' then os_makedirs fs ''archive'' else fs"
  from assms have p1: "p1 = output_filename name"
    and o: "open_w ?fs0 (output_filename name) (archive_text name t1) = Inr fs1"
    by (auto simp: save_playlist_to_markdown_def Let_def split: sum.splits)
  from o have ok: "output_filename name \<notin> dirs ?fs0"
      "parent_dir (output_filename name) = [] \<or> parent_dir (output_filename name) \<in> dirs ?fs0"
    and fs1: "fs1 = ?fs0\<lparr>files := (files ?fs0)(output_filename name \<mapsto> archive_text name t1)\<rparr>"
    by (auto simp: open_w_def split: if_splits)
  have d: "dirs fs1 = dirs ?fs0"
    by (simp add: fs1)
  have e: "os_path_exists fs1 ''archive''"
    by (auto simp: fs1 os_path_exists_def os_makedirs_def)
  have "open_w fs1 (output_filename name) (archive_text name t2)
      = Inr (fs1\<lparr>files := (files fs1)(output_filename name \<mapsto> archive_text name t2)\<rparr>)"
    using ok by (auto simp: open_w_def d)
  then show ?thesis
    using e by (simp add: save_playlist_to_markdown_def p1)
qed

lemma archive_text_not_empty: "archive_text name tracks \<noteq> []"
  by (simp add: archive_text_def)

lemma spec_items_lines:
  "numbered (available spec_items)
     = [''1. _Song A_ by Artist X'', ''2. _Song B_ by Unknown Artist'']"
  by code_simp

text \<open>
  C4. The file written for a playlist holds the heading \<open># <playlist_name> Song Archive\<close>
  with the name as it was given, an empty line, and then every line of \<open>tracks\<close>
  followed by a newline. The write succeeds when the name has no \<open>/\<close>, \<open>archive\<close>
  is not a regular file and the target is not a directory. Archiving the playlist of
  the round-trip scenario gives a file with the heading and exactly the two track lines.
\<close>

theorem archive_file_content:
  "(fst (save_playlist_to_markdown fs name tracks) = Inr path \<longrightarrow>
      path = output_filename name
      \<and> files (snd (save_playlist_to_markdown fs name tracks)) path
          = Some (''# '' @ name @ '' Song Archive'' @ [CHR 0x0A, CHR 0x0A]
                  @ concat (map (\<lambda>line. line @ [CHR 0x0A]) tracks)))
   \<and> (CHR ''/'' \<notin> set name \<and> ''archive'' \<notin> dom (files fs) \<and> output_filename name \<notin> dirs fs
       \<longrightarrow> fst (save_playlist_to_markdown fs name tracks) = Inr (output_filename name))
   \<and> get_playlist_tracks (remote_of [\<lparr>p_id = ''p1'', p_name = ''Mix''\<rparr>] (\<lambda>pid. spec_items)) ''p1''
       = Some (Inr [''1. _Song A_ by Artist X'', ''2. _Song B_ by Unknown Artist''])
   \<and> handle_archive_playlist (lib_with ex)
         (remote_of [\<lparr>p_id = ''p1'', p_name = ''Mix''\<rparr>] (\<lambda>pid. spec_items)) ''Mix'' empty_world
       = Some (Inr (),
           \<lparr>disk = \<lparr>files = [''archive/mix_playlist_archive.md'' \<mapsto>
                           ''# Mix Song Archive'' @ [CHR 0x0A, CHR 0x0A]
                           @ ''1. _Song A_ by Artist X'' @ [CHR 0x0A]
                           @ ''2. _Song B_ by Unknown Artist'' @ [CHR 0x0A]],
                  dirs = {''archive''}\<rparr>,
            stdout = [''Playlist '' @ [CHR 0x27] @ ''Mix'' @ [CHR 0x27]
                        @ '' has been archived successfully to archive/mix_playlist_archive.md'']\<rparr>)"
proof (intro conjI impI)
  assume a: "fst (save_playlist_to_markdown fs name tracks) = Inr path"
  then show "path = output_filename name"
    by (rule save_path)
  from a show "files (snd (save_playlist_to_markdown fs name tracks)) path
      = Some (''# '' @ name @ '' Song Archive'' @ [CHR 0x0A, CHR 0x0A]
              @ concat (map (\<lambda>line. line @ [CHR 0x0A]) tracks))"
    by (simp add: save_content archive_text_def)
next
  assume "CHR ''/'' \<notin> set name \<and> ''archive'' \<notin> dom (files fs) \<and> output_filename name \<notin> dirs fs"
  then show "fst (save_playlist_to_markdown fs name tracks) = Inr (output_filename name)"
    by (simp add: save_succeeds)
next
  let ?sp = "remote_of [\<lparr>p_id = ''p1'', p_name = ''Mix''\<rparr>] (\<lambda>pid. spec_items)"
  show tracks: "get_playlist_tracks ?sp ''p1''
      = Some (Inr [''1. _Song A_ by Artist X'', ''2. _Song B_ by Unknown Artist''])"
    using get_playlist_tracks_remote_of [of 100 "[\<lparr>p_id = ''p1'', p_name = ''Mix''\<rparr>]"
        "\<lambda>pid. spec_items" "''p1''"]
    by (simp add: get_playlist_tracks_def spec_items_lines)
  have all: "get_all_playlists ?sp = Some (Inr [\<lparr>p_id = ''p1'', p_name = ''Mix''\<rparr>])"
    using get_all_playlists_remote_of [of 50 "[\<lparr>p_id = ''p1'', p_name = ''Mix''\<rparr>]"]
    by (simp add: get_all_playlists_def)
  have found: "get_playlist_id_by_name (lib_with ex) ?sp ''Mix'' 80 = Some (Inr (Some ''p1'', []))"
    by (simp add: get_playlist_id_by_name_def all lookup_playlist_id_def lib_with_def
        nfkc_latin1_def nfkc_char_def strip_def isspace_def lower_def lower_char_def
        char_of_def bit_0)
  have name: "output_filename ''Mix'' = ''archive/mix_playlist_archive.md''"
    by (simp add: output_filename_def lower_def lower_char_def replace_space_def
        char_of_def bit_0)
  have saved: "save_playlist_to_markdown (disk empty_world) ''Mix''
        [''1. _Song A_ by Artist X'', ''2. _Song B_ by Unknown Artist'']
      = (Inr ''archive/mix_playlist_archive.md'',
         \<lparr>files = [''archive/mix_playlist_archive.md'' \<mapsto>
                     ''# Mix Song Archive'' @ [CHR 0x0A, CHR 0x0A]
                     @ ''1. _Song A_ by Artist X'' @ [CHR 0x0A]
                     @ ''2. _Song B_ by Unknown Artist'' @ [CHR 0x0A]],
          dirs = {''archive''}\<rparr>)"
    by (simp add: save_playlist_to_markdown_def name empty_world_def os_path_exists_def
        os_makedirs_def open_w_def parent_dir_def archive_text_def)
  show "handle_archive_playlist (lib_with ex) ?sp ''Mix'' empty_world
      = Some (Inr (),
          \<lparr>disk = \<lparr>files = [''archive/mix_playlist_archive.md'' \<mapsto>
                          ''# Mix Song Archive'' @ [CHR 0x0A, CHR 0x0A]
                          @ ''1. _Song A_ by Artist X'' @ [CHR 0x0A]
                          @ ''2. _Song B_ by Unknown Artist'' @ [CHR 0x0A]],
                 dirs = {''archive''}\<rparr>,
           stdout = [''Playlist '' @ [CHR 0x27] @ ''Mix'' @ [CHR 0x27]
                       @ '' has been archived successfully to archive/mix_playlist_archive.md'']\<rparr>)"
    by (simp add: handle_archive_playlist_def found tracks saved print_def)
      (simp add: empty_world_def)
qed

theorem archive_file_content_witness:
  "fst (save_playlist_to_markdown (disk empty_world) ''Mix'' [''1. a'', ''2. b''])
     = Inr ''archive/mix_playlist_archive.md''
   \<and> files (snd (save_playlist_to_markdown (disk empty_world) ''Mix'' [''1. a'', ''2. b'']))
       ''archive/mix_playlist_archive.md''
     = Some (''# Mix Song Archive'' @ [CHR 0x0A, CHR 0x0A] @ ''1. a'' @ [CHR 0x0A]
             @ ''2. b'' @ [CHR 0x0A])"
proof -
  have name: "output_filename ''Mix'' = ''archive/mix_playlist_archive.md''"
    by (simp add: output_filename_def lower_def lower_char_def replace_space_def
        char_of_def bit_0)
  have "CHR ''/'' \<notin> set ''Mix'' \<and> ''archive'' \<notin> dom (files (disk empty_world))
      \<and> output_filename ''Mix'' \<notin> dirs (disk empty_world)"
    by (simp add: empty_world_def)
  then show ?thesis
    using archive_file_content [where fs = "disk empty_world" and name = "''Mix''"
        and tracks = "[''1. a'', ''2. b'']" and path = "''archive/mix_playlist_archive.md''"]
    by (simp add: name)
qed

text \<open>
  C5. The path of the archive depends on the playlist name only: \<open>archive/\<close>, the
  name with its spaces replaced by underscores and then lowercased, and
  \<open>_playlist_archive.md\<close>. A second write under the same name succeeds whenever the
  first did, goes to the same path, and leaves there the text of the second write only.
\<close>

theorem archive_path_and_overwrite:
  "output_filename name = ''archive/'' @ lower (replace_space name) @ ''_playlist_archive.md''
   \<and> output_filename ''My Playlist!'' = ''archive/my_playlist!_playlist_archive.md''
   \<and> (fst (save_playlist_to_markdown fs name tracks) = Inr path \<longrightarrow> path = output_filename name)
   \<and> (save_playlist_to_markdown fs name t1 = (Inr p1, fs1) \<longrightarrow>
        (\<exists>fs2. save_playlist_to_markdown fs1 name t2 = (Inr p1, fs2)
           \<and> files fs2 p1 = Some (archive_text name t2)
           \<and> files fs2 p1 \<noteq> Some (archive_text name t1 @ archive_text name t2)))"
proof (intro conjI impI)
  show "output_filename name = ''archive/'' @ lower (replace_space name) @ ''_playlist_archive.md''"
    by (simp add: output_filename_def)
  show "output_filename ''My Playlist!'' = ''archive/my_playlist!_playlist_archive.md''"
    by (simp add: output_filename_def lower_def lower_char_def replace_space_def
        char_of_def bit_0)
next
  assume "fst (save_playlist_to_markdown fs name tracks) = Inr path"
  then show "path = output_filename name"
    by (rule save_path)
next
  assume "save_playlist_to_markdown fs name t1 = (Inr p1, fs1)"
  then have "save_playlist_to_markdown fs1 name t2
      = (Inr p1, fs1\<lparr>files := (files fs1)(p1 \<mapsto> archive_text name t2)\<rparr>)"
    by (rule save_again)
  moreover have "archive_text name t2 \<noteq> archive_text name t1 @ archive_text name t2"
    using archive_text_not_empty [of name t1] by simp
  ultimately show "\<exists>fs2. save_playlist_to_markdown fs1 name t2 = (Inr p1, fs2)
      \<and> files fs2 p1 = Some (archive_text name t2)
      \<and> files fs2 p1 \<noteq> Some (archive_text name t1 @ archive_text name t2)"
    by simp
qed

text \<open>Two writes for \<open>My Playlist!\<close> into an empty working directory.\<close>

theorem archive_path_and_overwrite_witness:
  "save_playlist_to_markdown (disk empty_world) ''My Playlist!'' [''1. old'', ''2. old'']
     = (Inr ''archive/my_playlist!_playlist_archive.md'',
        \<lparr>files = [''archive/my_playlist!_playlist_archive.md'' \<mapsto>
                    archive_text ''My Playlist!'' [''1. old'', ''2. old'']],
         dirs = {''archive''}\<rparr>)
   \<and> (\<exists>fs2. save_playlist_to_markdown
               \<lparr>files = [''archive/my_playlist!_playlist_archive.md'' \<mapsto>
                           archive_text ''My Playlist!'' [''1. old'', ''2. old'']],
                dirs = {''archive''}\<rparr> ''My Playlist!'' [''1. new'']
             = (Inr ''archive/my_playlist!_playlist_archive.md'', fs2)
          \<and> files fs2 ''archive/my_playlist!_playlist_archive.md''
             = Some (''# My Playlist! Song Archive'' @ [CHR 0x0A, CHR 0x0A] @ ''1. new''
                     @ [CHR 0x0A]))"
proof -
  have name: "output_filename ''My Playlist!'' = ''archive/my_playlist!_playlist_archive.md''"
    by (simp add: output_filename_def lower_def lower_char_def replace_space_def
        char_of_def bit_0)
  have first: "save_playlist_to_markdown (disk empty_world) ''My Playlist!'' [''1. old'', ''2. old'']
      = (Inr ''archive/my_playlist!_playlist_archive.md'',
         \<lparr>files = [''archive/my_playlist!_playlist_archive.md'' \<mapsto>
                     archive_text ''My Playlist!'' [''1. old'', ''2. old'']],
          dirs = {''archive''}\<rparr>)"
    by (simp add: save_playlist_to_markdown_def name empty_world_def os_path_exists_def
        os_makedirs_def open_w_def parent_dir_def)
  have new_text: "archive_text ''My Playlist!'' [''1. new'']
      = ''# My Playlist! Song Archive'' @ [CHR 0x0A, CHR 0x0A] @ ''1. new'' @ [CHR 0x0A]"
    by (simp add: archive_text_def)
  note inst = archive_path_and_overwrite
      [where fs = "disk empty_world" and name = "''My Playlist!''"
         and ?t1.0 = "[''1. old'', ''2. old'']" and ?t2.0 = "[''1. new'']"
         and ?p1.0 = "''archive/my_playlist!_playlist_archive.md''"
         and ?fs1.0 = "\<lparr>files = [''archive/my_playlist!_playlist_archive.md'' \<mapsto>
                     archive_text ''My Playlist!'' [''1. old'', ''2. old'']],
          dirs = {''archive''}\<rparr>"]
  from inst first have "\<exists>fs2. save_playlist_to_markdown
        \<lparr>files = [''archive/my_playlist!_playlist_archive.md'' \<mapsto>
                    archive_text ''My Playlist!'' [''1. old'', ''2. old'']],
         dirs = {''archive''}\<rparr> ''My Playlist!'' [''1. new'']
      = (Inr ''archive/my_playlist!_playlist_archive.md'', fs2)
      \<and> files fs2 ''archive/my_playlist!_playlist_archive.md''
          = Some (archive_text ''My Playlist!'' [''1. new''])"
    by blast
  with first show ?thesis
    by (simp only: new_text)
qed

subsection \<open>Termination of the loops\<close>

lemma get_all_playlists_loop_stuck:
  "get_all_playlists_loop sp limit offset playlists = Some y \<Longrightarrow>
     current_user_playlists sp \<noteq> current_user_playlists stuck_remote"
proof (induction rule: get_all_playlists_loop.raw_induct [rotated 1, consumes 1])
  case (1 loop sp limit offset playlists y)
  show ?case
  proof
    assume s: "current_user_playlists sp = current_user_playlists stuck_remote"
    with 1(2) have "loop sp limit (offset + limit) playlists = Some y"
      by (simp add: stuck_remote_def)
    then have "current_user_playlists sp \<noteq> current_user_playlists stuck_remote"
      by (rule 1(1))
    with s show False
      by simp
  qed
qed

lemma get_playlist_tracks_loop_returns:
  assumes "playlist_tracks sp pid (offset + k * limit) limit = Inr b" and "items b = []"
  shows "\<exists>r. get_playlist_tracks_loop sp pid limit offset idx acc = Some r"
  using assms
proof (induction k arbitrary: offset idx acc)
  case 0
  then show ?case
    by (subst get_playlist_tracks_loop.simps) simp
next
  case (Suc k)
  have "playlist_tracks sp pid (offset + limit + k * limit) limit = Inr b"
    using Suc.prems(1) by (simp add: add.assoc)
  then have step: "\<exists>r. get_playlist_tracks_loop sp pid limit (offset + limit) idx' acc' = Some r"
    for idx' acc'
    using Suc.prems(2) by (rule Suc.IH)
  show ?case
    by (subst get_playlist_tracks_loop.simps) (simp add: step split: sum.splits prod.splits)
qed

text \<open>
  C7, on the code. Against a remote whose every page is empty and carries a next
  link, \<open>get_all_playlists\<close> never returns: it has no check for an empty page and
  asks for the offsets 0, 50, 100 and so on without end. \<open>get_playlist_tracks\<close>
  has the check and returns at the first page.
\<close>

theorem get_all_playlists_stuck_remote_diverges:
  "get_all_playlists stuck_remote = None
   \<and> get_playlist_tracks stuck_remote pid = Some (Inr [])"
proof
  show "get_all_playlists stuck_remote = None"
  proof (cases "get_all_playlists stuck_remote")
    case (Some y)
    then have "current_user_playlists stuck_remote \<noteq> current_user_playlists stuck_remote"
      unfolding get_all_playlists_def by (rule get_all_playlists_loop_stuck)
    then show ?thesis
      by simp
  qed simp
  show "get_playlist_tracks stuck_remote pid = Some (Inr [])"
    unfolding get_playlist_tracks_def
    by (subst get_playlist_tracks_loop.simps) (simp add: stuck_remote_def)
qed

subsection \<open>Batch and bulk archiving\<close>

lemma batch_archived:
  assumes "get_playlist_id_by_name lib sp n 80 = Some (Inr (Some pid, printed))" and "pid \<noteq> []"
    and "get_playlist_tracks sp pid = Some (Inr tracks)"
    and "save_playlist_to_markdown (disk w) n tracks = (Inr path, fs')"
  shows "handle_archive_batch_loop lib sp (n # rest) w
     = handle_archive_batch_loop lib sp rest
         (w\<lparr>disk := fs',
            stdout := stdout w @ [''Archiving: '' @ n @ '' ...''] @ printed
               @ [''Successfully archived '' @ [CHR 0x27] @ n @ [CHR 0x27] @ [CHR 0x0A]]\<rparr>)"
  using assms by (simp add: print_def Let_def)

lemma batch_fetch_raises:
  assumes "get_playlist_id_by_name lib sp n 80 = Some (Inr (Some pid, printed))" and "pid \<noteq> []"
    and "get_playlist_tracks sp pid = Some (Inl e)"
  shows "handle_archive_batch_loop lib sp (n # rest) w
     = Some (Inl e, w\<lparr>stdout := stdout w @ [''Archiving: '' @ n @ '' ...''] @ printed\<rparr>)"
  using assms by (simp add: print_def Let_def)

lemma batch_write_raises:
  assumes "get_playlist_id_by_name lib sp n 80 = Some (Inr (Some pid, printed))" and "pid \<noteq> []"
    and "get_playlist_tracks sp pid = Some (Inr tracks)"
    and "save_playlist_to_markdown (disk w) n tracks = (Inl e, fs')"
  shows "handle_archive_batch_loop lib sp (n # rest) w
     = Some (Inl e, w\<lparr>disk := fs',
                        stdout := stdout w @ [''Archiving: '' @ n @ '' ...''] @ printed\<rparr>)"
  using assms by (simp add: print_def Let_def)

lemma batch_resolve_diverges:
  assumes "get_playlist_id_by_name lib sp n 80 = None"
  shows "handle_archive_batch_loop lib sp (n # rest) w = None"
  using assms by simp

lemma batch_resolve_raises:
  assumes "get_playlist_id_by_name lib sp n 80 = Some (Inl e)"
  shows "handle_archive_batch_loop lib sp (n # rest) w
     = Some (Inl e, w\<lparr>stdout := stdout w @ [''Archiving: '' @ n @ '' ...'']\<rparr>)"
  using assms by (simp add: print_def)

lemma batch_fetch_diverges:
  assumes "get_playlist_id_by_name lib sp n 80 = Some (Inr (Some pid, printed))" and "pid \<noteq> []"
    and "get_playlist_tracks sp pid = None"
  shows "handle_archive_batch_loop lib sp (n # rest) w = None"
  using assms by (simp add: Let_def)

declare handle_archive_batch_loop.simps(2) [simp del]



lemma save_files_elsewhere:
  "path \<noteq> output_filename name \<Longrightarrow>
     files (snd (save_playlist_to_markdown fs name tracks)) path = files fs path"
  by (auto simp: save_playlist_to_markdown_def Let_def open_w_def os_makedirs_def
      split: sum.splits if_splits)

lemma save_raises_files:
  "fst (save_playlist_to_markdown fs name tracks) = Inl e \<Longrightarrow>
     files (snd (save_playlist_to_markdown fs name tracks)) = files fs"
  by (auto simp: save_playlist_to_markdown_def Let_def open_w_def os_makedirs_def
      split: sum.splits if_splits)

lemma batch_writes_only_resolved:
  assumes "handle_archive_batch_loop lib sp names w = Some (r, w')"
    and "files (disk w') path \<noteq> files (disk w) path"
  shows "\<exists>n\<in>set names. path = output_filename n
           \<and> (\<exists>pid printed. get_playlist_id_by_name lib sp n 80 = Some (Inr (Some pid, printed))
                 \<and> pid \<noteq> [])"
  using assms
proof (induction names arbitrary: w)
  case Nil
  then show ?case by simp
next
  case (Cons n names)
  show ?case
  proof (cases "get_playlist_id_by_name lib sp n 80")
    case None
    with Cons.prems show ?thesis
      by (simp add: batch_resolve_diverges)
  next
    case (Some res)
    show ?thesis
    proof (cases res)
      case (Inl e)
      with Some Cons.prems show ?thesis
        by (auto simp: batch_resolve_raises)
    next
      case (Inr v)
      obtain pid printed where v: "v = (pid, printed)"
        by (cases v)
      note res = Some [unfolded Inr v]
      show ?thesis
      proof (cases "truthy pid")
        case False
        from Cons.prems(1) have "handle_archive_batch_loop lib sp names
            (w\<lparr>stdout := stdout w @ [''Archiving: '' @ n @ '' ...''] @ printed
               @ [''Playlist '' @ [CHR 0x27] @ n @ [CHR 0x27] @ '' not found. Skipping ...''
                    @ [CHR 0x0A]]\<rparr>) = Some (r, w')"
          by (simp add: batch_skip [OF res False])
        from Cons.IH [OF this] Cons.prems(2) show ?thesis
          by auto
      next
        case True
        then obtain i where pid: "pid = Some i" and i: "i \<noteq> []"
          by (cases pid) auto
        note res = res [unfolded pid]
        show ?thesis
        proof (cases "get_playlist_tracks sp i")
          case None
          with Cons.prems show ?thesis
            by (simp add: batch_fetch_diverges [OF res i None])
        next
          case tr: (Some t)
          show ?thesis
          proof (cases t)
            case (Inl e)
            with Cons.prems show ?thesis
              by (auto simp: batch_fetch_raises [OF res i tr [unfolded Inl]])
          next
            case tracks: (Inr tracks)
            obtain res' fs' where s: "save_playlist_to_markdown (disk w) n tracks = (res', fs')"
              by (cases "save_playlist_to_markdown (disk w) n tracks")
            show ?thesis
            proof (cases res')
              case (Inl e)
              have "files fs' = files (disk w)"
                using save_raises_files [of "disk w" n tracks e] s Inl by simp
              with Cons.prems show ?thesis
                by (auto simp: batch_write_raises [OF res i tr [unfolded tracks] s [unfolded Inl]])
            next
              case (Inr p)
              let ?w = "w\<lparr>disk := fs',
                  stdout := stdout w @ [''Archiving: '' @ n @ '' ...''] @ printed
                    @ [''Successfully archived '' @ [CHR 0x27] @ n @ [CHR 0x27] @ [CHR 0x0A]]\<rparr>"
              from Cons.prems(1) have rest: "handle_archive_batch_loop lib sp names ?w = Some (r, w')"
                by (simp add: batch_archived [OF res i tr [unfolded tracks] s [unfolded Inr]])
              show ?thesis
              proof (cases "path = output_filename n")
                case True
                with res i show ?thesis
                  by auto
              next
                case False
                then have "files fs' path = files (disk w) path"
                  using save_files_elsewhere [of path n "disk w" tracks] s by simp
                with Cons.prems(2) have "files (disk w') path \<noteq> files (disk ?w) path"
                  by simp
                from Cons.IH [OF rest this] show ?thesis
                  by auto
              qed
            qed
          qed
        qed
      qed
    qed
  qed
qed

lemma batch_all_skipped:
  assumes "\<forall>n\<in>set names. \<exists>r printed.
             get_playlist_id_by_name lib sp n 80 = Some (Inr (r, printed)) \<and> \<not> truthy r"
  shows "\<exists>w'. handle_archive_batch_loop lib sp names w = Some (Inr (), w') \<and> disk w' = disk w"
  using assms
proof (induction names arbitrary: w)
  case Nil
  show ?case by simp
next
  case (Cons n names)
  then obtain r printed where
    r: "get_playlist_id_by_name lib sp n 80 = Some (Inr (r, printed))" "\<not> truthy r"
    by auto
  let ?w = "w\<lparr>stdout := stdout w @ [''Archiving: '' @ n @ '' ...''] @ printed
               @ [''Playlist '' @ [CHR 0x27] @ n @ [CHR 0x27] @ '' not found. Skipping ...''
                    @ [CHR 0x0A]]\<rparr>"
  have "\<exists>w'. handle_archive_batch_loop lib sp names ?w = Some (Inr (), w') \<and> disk w' = disk ?w"
    using Cons.prems by (intro Cons.IH) simp
  then show ?case
    by (simp add: batch_skip [OF r])
qed

lemma get_all_playlists_served:
  "get_all_playlists (remote_of pls tr) = Some (Inr pls)"
  by (simp add: get_all_playlists_def get_all_playlists_remote_of)

lemma get_playlist_id_by_name_served:
  "get_playlist_id_by_name lib (remote_of pls tr) q threshold
     = Some (Inr (lookup_playlist_id lib pls q threshold))"
  by (simp add: get_playlist_id_by_name_def get_all_playlists_served)

lemma get_playlist_tracks_served:
  "get_playlist_tracks (remote_of pls tr) pid = Some (Inr (numbered (available (tr pid))))"
  by (simp add: get_playlist_tracks_def get_playlist_tracks_remote_of)

lemma output_filename_RealList:
  "output_filename ''RealList'' = ''archive/reallist_playlist_archive.md''"
  by (simp add: output_filename_def lower_def lower_char_def replace_space_def
      char_of_def bit_0)

lemma lookup_RealList:
  "lookup_playlist_id (lib_with ex) [\<lparr>p_id = ''p1'', p_name = ''RealList''\<rparr>] ''RealList'' 80
     = (Some ''p1'', [])"
  by (simp add: lookup_playlist_id_def lib_with_def nfkc_latin1_def nfkc_char_def strip_def
      isspace_def lower_def lower_char_def char_of_def bit_0)

lemma lookup_GhostList:
  "fst (lookup_playlist_id (lib_with ex) [\<lparr>p_id = ''p1'', p_name = ''RealList''\<rparr>]
          ''GhostList'' 80) = None"
  by (rule lookup_playlist_id_no_exact)
    (simp add: lib_with_def nfkc_latin1_def nfkc_char_def strip_def
      isspace_def lower_def lower_char_def char_of_def bit_0)

text \<open>
  C6. A name that does not resolve is reported and skipped: the loop prints the skip
  line and goes on with the remaining names in an unchanged file system, and a batch
  in which no name resolves returns normally. A file is written or changed only at
  the archive path of a name that resolved. For the names \<open>RealList\<close> and
  \<open>GhostList\<close>, of which the remote has the first only, the loop returns normally
  with the one archive of \<open>RealList\<close> and one skip line, whatever the fuzzy matcher
  suggests.
\<close>

theorem batch_skips_unresolved_names:
  "(get_playlist_id_by_name lib sp n 80 = Some (Inr (r, printed)) \<and> \<not> truthy r \<longrightarrow>
      handle_archive_batch_loop lib sp (n # rest) w
        = handle_archive_batch_loop lib sp rest
            (w\<lparr>stdout := stdout w @ [''Archiving: '' @ n @ '' ...''] @ printed
                  @ [''Playlist '' @ [CHR 0x27] @ n @ [CHR 0x27] @ '' not found. Skipping ...''
                       @ [CHR 0x0A]]\<rparr>))
   \<and> ((\<forall>m\<in>set names. \<exists>r printed.
           get_playlist_id_by_name lib sp m 80 = Some (Inr (r, printed)) \<and> \<not> truthy r) \<longrightarrow>
        (\<exists>w'. handle_archive_batch_loop lib sp names w = Some (Inr (), w') \<and> disk w' = disk w))
   \<and> (handle_archive_batch_loop lib sp names w = Some (res, w')
        \<and> files (disk w') path \<noteq> files (disk w) path \<longrightarrow>
        (\<exists>m\<in>set names. path = output_filename m
           \<and> (\<exists>pid printed. get_playlist_id_by_name lib sp m 80 = Some (Inr (Some pid, printed))
                 \<and> pid \<noteq> [])))
   \<and> handle_archive_batch_loop (lib_with ex)
         (remote_of [\<lparr>p_id = ''p1'', p_name = ''RealList''\<rparr>] (\<lambda>pid. spec_items))
         [''RealList'', ''GhostList''] empty_world
       = Some (Inr (),
           \<lparr>disk = \<lparr>files = [''archive/reallist_playlist_archive.md'' \<mapsto>
                             archive_text ''RealList''
                               [''1. _Song A_ by Artist X'', ''2. _Song B_ by Unknown Artist'']],
                    dirs = {''archive''}\<rparr>,
            stdout = [''Archiving: RealList ...'',
                      ''Successfully archived '' @ [CHR 0x27] @ ''RealList'' @ [CHR 0x27, CHR 0x0A],
                      ''Archiving: GhostList ...'']
                     @ snd (lookup_playlist_id (lib_with ex)
                              [\<lparr>p_id = ''p1'', p_name = ''RealList''\<rparr>] ''GhostList'' 80)
                     @ [''Playlist '' @ [CHR 0x27] @ ''GhostList'' @ [CHR 0x27]
                          @ '' not found. Skipping ...'' @ [CHR 0x0A]]\<rparr>)"
proof (intro conjI impI)
  assume "get_playlist_id_by_name lib sp n 80 = Some (Inr (r, printed)) \<and> \<not> truthy r"
  then show "handle_archive_batch_loop lib sp (n # rest) w
      = handle_archive_batch_loop lib sp rest
          (w\<lparr>stdout := stdout w @ [''Archiving: '' @ n @ '' ...''] @ printed
                @ [''Playlist '' @ [CHR 0x27] @ n @ [CHR 0x27] @ '' not found. Skipping ...''
                     @ [CHR 0x0A]]\<rparr>)"
    by (simp add: batch_skip)
next
  assume "\<forall>m\<in>set names. \<exists>r printed.
      get_playlist_id_by_name lib sp m 80 = Some (Inr (r, printed)) \<and> \<not> truthy r"
  then show "\<exists>w'. handle_archive_batch_loop lib sp names w = Some (Inr (), w')
      \<and> disk w' = disk w"
    by (rule batch_all_skipped)
next
  assume "handle_archive_batch_loop lib sp names w = Some (res, w')
      \<and> files (disk w') path \<noteq> files (disk w) path"
  then show "\<exists>m\<in>set names. path = output_filename m
      \<and> (\<exists>pid printed. get_playlist_id_by_name lib sp m 80 = Some (Inr (Some pid, printed))
            \<and> pid \<noteq> [])"
    using batch_writes_only_resolved [of lib sp names w res w' path] by simp
next
  let ?pls = "[\<lparr>p_id = ''p1'', p_name = ''RealList''\<rparr>]"
  let ?sp = "remote_of ?pls (\<lambda>pid. spec_items)"
  let ?lines = "[''1. _Song A_ by Artist X'', ''2. _Song B_ by Unknown Artist'']"
  let ?fs = "\<lparr>files = [''archive/reallist_playlist_archive.md'' \<mapsto>
                         archive_text ''RealList'' ?lines],
               dirs = {''archive''}\<rparr>"
  have real: "get_playlist_id_by_name (lib_with ex) ?sp ''RealList'' 80
      = Some (Inr (Some ''p1'', []))"
    by (simp add: get_playlist_id_by_name_served lookup_RealList)
  have tracks: "get_playlist_tracks ?sp ''p1'' = Some (Inr ?lines)"
    by (simp add: get_playlist_tracks_served spec_items_lines)
  have saved: "save_playlist_to_markdown (disk empty_world) ''RealList'' ?lines
      = (Inr ''archive/reallist_playlist_archive.md'', ?fs)"
    by (simp add: save_playlist_to_markdown_def output_filename_RealList empty_world_def
        os_path_exists_def os_makedirs_def open_w_def parent_dir_def)
  obtain printed where ghost: "get_playlist_id_by_name (lib_with ex) ?sp ''GhostList'' 80
        = Some (Inr (None, printed))"
      and printed: "printed = snd (lookup_playlist_id (lib_with ex) ?pls ''GhostList'' 80)"
    using lookup_GhostList [of ex]
    by (cases "lookup_playlist_id (lib_with ex) ?pls ''GhostList'' 80")
      (simp add: get_playlist_id_by_name_served)
  have "handle_archive_batch_loop (lib_with ex) ?sp [''RealList'', ''GhostList''] empty_world
      = handle_archive_batch_loop (lib_with ex) ?sp [''GhostList'']
          (empty_world\<lparr>disk := ?fs,
             stdout := stdout empty_world @ [''Archiving: '' @ ''RealList'' @ '' ...''] @ []
               @ [''Successfully archived '' @ [CHR 0x27] @ ''RealList'' @ [CHR 0x27]
                    @ [CHR 0x0A]]\<rparr>)"
    using real _ tracks saved by (rule batch_archived) simp
  also have "\<dots> = handle_archive_batch_loop (lib_with ex) ?sp []
          (empty_world\<lparr>disk := ?fs,
             stdout := [''Archiving: RealList ...'',
               ''Successfully archived '' @ [CHR 0x27] @ ''RealList'' @ [CHR 0x27, CHR 0x0A],
               ''Archiving: GhostList ...''] @ printed
               @ [''Playlist '' @ [CHR 0x27] @ ''GhostList'' @ [CHR 0x27]
                    @ '' not found. Skipping ...'' @ [CHR 0x0A]]\<rparr>)"
    by (subst batch_skip [OF ghost]) (simp_all add: empty_world_def)
  finally show "handle_archive_batch_loop (lib_with ex) ?sp [''RealList'', ''GhostList'']
        empty_world
      = Some (Inr (),
          \<lparr>disk = ?fs,
           stdout = [''Archiving: RealList ...'',
                     ''Successfully archived '' @ [CHR 0x27] @ ''RealList'' @ [CHR 0x27, CHR 0x0A],
                     ''Archiving: GhostList ...'']
                    @ snd (lookup_playlist_id (lib_with ex) ?pls ''GhostList'' 80)
                    @ [''Playlist '' @ [CHR 0x27] @ ''GhostList'' @ [CHR 0x27]
                         @ '' not found. Skipping ...'' @ [CHR 0x0A]]\<rparr>)"
    by (simp add: printed empty_world_def)
qed

text \<open>
  The same batch with a fuzzy matcher that finds nothing: one archive file, one
  skip line, a normal return.
\<close>

theorem batch_skips_unresolved_names_witness:
  "(\<exists>w'. handle_archive_batch_loop (lib_with (\<lambda>q choices cutoff limit. []))
            (remote_of [\<lparr>p_id = ''p1'', p_name = ''RealList''\<rparr>] (\<lambda>pid. spec_items))
            [''RealList'', ''GhostList''] empty_world = Some (Inr (), w')
         \<and> dom (files (disk w')) = {''archive/reallist_playlist_archive.md''}
         \<and> stdout w'
             = [''Archiving: RealList ...'',
                ''Successfully archived '' @ [CHR 0x27] @ ''RealList'' @ [CHR 0x27, CHR 0x0A],
                ''Archiving: GhostList ...'',
                ''Playlist '' @ [CHR 0x27] @ ''GhostList'' @ [CHR 0x27]
                  @ '' not found. Skipping ...'' @ [CHR 0x0A]])
   \<and> (\<exists>w'. handle_archive_batch_loop (lib_with (\<lambda>q choices cutoff limit. []))
            (remote_of [\<lparr>p_id = ''p1'', p_name = ''RealList''\<rparr>] (\<lambda>pid. spec_items))
            [''GhostList'', ''GhostList''] empty_world = Some (Inr (), w')
         \<and> disk w' = disk empty_world)
   \<and> (\<exists>m\<in>set [''RealList'', ''GhostList''].
         ''archive/reallist_playlist_archive.md'' = output_filename m
         \<and> (\<exists>pid printed.
               get_playlist_id_by_name (lib_with (\<lambda>q choices cutoff limit. []))
                 (remote_of [\<lparr>p_id = ''p1'', p_name = ''RealList''\<rparr>] (\<lambda>pid. spec_items)) m 80
                 = Some (Inr (Some pid, printed)) \<and> pid \<noteq> []))"
proof -
  let ?lib = "lib_with (\<lambda>q choices cutoff limit. [])"
  let ?pls = "[\<lparr>p_id = ''p1'', p_name = ''RealList''\<rparr>]"
  let ?sp = "remote_of ?pls (\<lambda>pid. spec_items)"
  let ?w = "\<lparr>disk = \<lparr>files = [''archive/reallist_playlist_archive.md'' \<mapsto>
                             archive_text ''RealList''
                               [''1. _Song A_ by Artist X'', ''2. _Song B_ by Unknown Artist'']],
                    dirs = {''archive''}\<rparr>,
            stdout = [''Archiving: RealList ...'',
                      ''Successfully archived '' @ [CHR 0x27] @ ''RealList'' @ [CHR 0x27, CHR 0x0A],
                      ''Archiving: GhostList ...'',
                      ''Playlist '' @ [CHR 0x27] @ ''GhostList'' @ [CHR 0x27]
                        @ '' not found. Skipping ...'' @ [CHR 0x0A]]\<rparr>"
  note inst = batch_skips_unresolved_names
    [where ex = "\<lambda>q choices cutoff limit. []" and lib = ?lib and sp = ?sp
       and names = "[''GhostList'', ''GhostList'']" and w = empty_world]
  note inst' = batch_skips_unresolved_names
    [where ex = "\<lambda>q choices cutoff limit. []" and lib = ?lib and sp = ?sp
       and names = "[''RealList'', ''GhostList'']" and w = empty_world and res = "Inr ()"
       and w' = ?w and path = "''archive/reallist_playlist_archive.md''"]
  have none: "snd (lookup_playlist_id ?lib ?pls ''GhostList'' 80) = []"
    by (simp add: lookup_playlist_id_def Let_def lib_with_def split: option.splits)
  have ghost: "get_playlist_id_by_name ?lib ?sp ''GhostList'' 80 = Some (Inr (None, []))"
    using lookup_GhostList [of "\<lambda>q choices cutoff limit. []"] none
    by (simp add: get_playlist_id_by_name_served prod_eq_iff)
  have run: "handle_archive_batch_loop ?lib ?sp [''RealList'', ''GhostList''] empty_world
      = Some (Inr (), ?w)"
    using inst none by simp
  have "\<exists>w'. handle_archive_batch_loop ?lib ?sp [''GhostList'', ''GhostList''] empty_world
      = Some (Inr (), w') \<and> disk w' = disk empty_world"
    using inst ghost by simp
  moreover have "\<exists>m\<in>set [''RealList'', ''GhostList''].
      ''archive/reallist_playlist_archive.md'' = output_filename m
      \<and> (\<exists>pid printed. get_playlist_id_by_name ?lib ?sp m 80 = Some (Inr (Some pid, printed))
            \<and> pid \<noteq> [])"
    using inst' run by (simp add: empty_world_def)
  ultimately show ?thesis
    using run by simp
qed














end
